theory Spec2Isabelle
  imports Complex_Main
begin

section \<open>Data model of \<^verbatim>\<open>src/utils/forecasting.ts\<close>\<close>

text \<open>
  Numbers. A JavaScript \<^verbatim>\<open>number\<close> is modelled as a \<^typ>\<open>real\<close>: the finite values,
  with exact arithmetic. \<^verbatim>\<open>NaN\<close>, the infinities and binary rounding are not represented.
  The one place where the code itself produces \<^verbatim>\<open>NaN\<close> from finite input is the mean of an
  empty window (\<^verbatim>\<open>0 / 0\<close>, reached only with \<^verbatim>\<open>windowSize = 0\<close>); statements about
  predicted values therefore assume a positive window.

  Dates. A date string \<^verbatim>\<open>'YYYY-MM-DD'\<close> is modelled by the number of the calendar day it
  names, counted from 1970-01-01 (day 0, a Thursday). The order of the strings is the order
  of the day numbers.
\<close>

type_synonym isodate = int

datatype ForecastingModel = MOVING_AVERAGE | EXPONENTIAL_SMOOTHING | ARIMA

record StockDataPoint =
  date :: isodate
  symbol :: string
  "open" :: real
  high :: real
  low :: real
  close :: real
  volume :: real

record PredictionResult =
  date :: isodate
  actual :: "real option"
  predicted :: real
  modelName :: ForecastingModel

text \<open>
  The two exceptions a forecaster can end with: the \<^verbatim>\<open>Error\<close> thrown by the length guard
  (the spec's \<^verbatim>\<open>InsufficientDataError\<close>), and the \<^verbatim>\<open>RangeError: Invalid time value\<close> that
  \<^verbatim>\<open>Date.prototype.toISOString\<close> throws on an invalid date.
\<close>

datatype error = InsufficientDataError | InvalidTimeValue

subsection \<open>Library functions of the host language\<close>

text \<open>
  \<^verbatim>\<open>parseFloat(x.toFixed(2))\<close>: the multiple of 1/100 nearest to \<open>x\<close>; of two equally near
  ones \<^verbatim>\<open>toFixed\<close> takes the larger in magnitude (it formats \<open>|x|\<close> and prefixes the sign).
\<close>

definition toFixed2 :: "real \<Rightarrow> real" where
  "toFixed2 x = (if x < 0 then - (of_int \<lfloor>- x * 100 + 1 / 2\<rfloor> / 100)
                 else of_int \<lfloor>x * 100 + 1 / 2\<rfloor> / 100)"

text \<open>\<^verbatim>\<open>xs.slice(a, b)\<close> for \<open>0 \<le> a\<close> and \<open>0 \<le> b\<close>.\<close>

definition slice :: "'a list \<Rightarrow> nat \<Rightarrow> nat \<Rightarrow> 'a list" where
  "slice xs a b = take (b - a) (drop a xs)"

text \<open>
  \<^verbatim>\<open>xs.slice(-k)\<close> for \<open>k \<ge> 0\<close>: the last \<open>k\<close> elements (all of them when there are fewer),
  but the whole array for \<open>k = 0\<close>, because \<^verbatim>\<open>-0\<close> is not a negative start index.
\<close>

definition sliceLast :: "'a list \<Rightarrow> nat \<Rightarrow> 'a list" where
  "sliceLast xs k = (if k = 0 then xs else drop (length xs - k) xs)"

text \<open>\<^verbatim>\<open>xs.reduce((sum, val) => sum + val, 0) / xs.length\<close>.\<close>

definition average :: "real list \<Rightarrow> real" where
  "average xs = foldl (\<lambda>sum val. sum + val) 0 xs / real (length xs)"

subsection \<open>Business-day calendar\<close>

text \<open>
  A \<^verbatim>\<open>Date\<close> object holds a time value, milliseconds since the epoch (UTC).
  \<^verbatim>\<open>new Date('YYYY-MM-DD')\<close> is midnight UTC of that day; \<^verbatim>\<open>getDate\<close>, \<^verbatim>\<open>setDate\<close> and
  \<^verbatim>\<open>getDay\<close> work in the host's local time; \<^verbatim>\<open>toISOString\<close> prints the UTC date. The host's
  time zone is the parameter \<open>tz\<close>: minutes east of UTC, taken constant over the dates
  involved (no daylight-saving change), so that \<^verbatim>\<open>setDate(getDate() + 1)\<close> adds 24 hours.
\<close>

definition msPerDay :: int where
  "msPerDay = 86400000"

definition newDate :: "isodate \<Rightarrow> int" where
  "newDate d = d * msPerDay"

definition getDay :: "int \<Rightarrow> int \<Rightarrow> int" where
  "getDay tz t = ((t + tz * 60000) div msPerDay + 4) mod 7"

definition toISODate :: "int \<Rightarrow> isodate" where
  "toISODate t = t div msPerDay"

text \<open>Lines 269-277, the \<^verbatim>\<open>while\<close> loop; \<open>t\<close> is the time value of \<^verbatim>\<open>date\<close>.\<close>

definition weekendAhead :: "int \<Rightarrow> nat" where
  "weekendAhead w = (if w = 5 then 2 else if w = 6 then 1 else 0)"

function businessLoop :: "int \<Rightarrow> int \<Rightarrow> nat \<Rightarrow> nat \<Rightarrow> int" where
  "businessLoop tz t businessDaysAdded daysToAdd =
     (if businessDaysAdded < daysToAdd then
        (if getDay tz (t + msPerDay) \<noteq> 0 \<and> getDay tz (t + msPerDay) \<noteq> 6
         then businessLoop tz (t + msPerDay) (businessDaysAdded + 1) daysToAdd
         else businessLoop tz (t + msPerDay) businessDaysAdded daysToAdd)
      else t)"
  by pat_completeness auto
termination
proof (relation "measure (\<lambda>(tz, t, a, n). 3 * (n - a) + weekendAhead (getDay tz t))")
  show "wf (measure (\<lambda>(tz, t, a, n). 3 * (n - a) + weekendAhead (getDay tz t)))"
    by simp
next
  fix tz t :: int and a n :: nat
  assume "a < n" and "getDay tz (t + msPerDay) \<noteq> 0 \<and> getDay tz (t + msPerDay) \<noteq> 6"
  then show "((tz, t + msPerDay, a + 1, n), (tz, t, a, n))
      \<in> measure (\<lambda>(tz, t, a, n). 3 * (n - a) + weekendAhead (getDay tz t))"
    by (auto simp: weekendAhead_def)
next
  fix tz t :: int and a n :: nat
  assume "a < n" and w: "\<not> (getDay tz (t + msPerDay) \<noteq> 0 \<and> getDay tz (t + msPerDay) \<noteq> 6)"
  have "(t + msPerDay + tz * 60000) div msPerDay = (t + tz * 60000) div msPerDay + 1"
    unfolding msPerDay_def by simp
  then have step: "getDay tz (t + msPerDay) = (getDay tz t + 1) mod 7"
    unfolding getDay_def by (simp add: mod_simps add.commute add.left_commute)
  have range: "0 \<le> getDay tz t" "getDay tz t < 7"
    unfolding getDay_def by simp_all
  from w step range have "getDay tz t = 5 \<or> getDay tz t = 6"
    by (auto split: if_splits) presburger+
  with w step show "((tz, t + msPerDay, a, n), (tz, t, a, n))
      \<in> measure (\<lambda>(tz, t, a, n). 3 * (n - a) + weekendAhead (getDay tz t))"
    by (auto simp: weekendAhead_def)
qed

declare businessLoop.simps [simp del]

definition getNextBusinessDay :: "int \<Rightarrow> isodate \<Rightarrow> nat \<Rightarrow> isodate" where
  "getNextBusinessDay tz lastDateStr daysToAdd =
     toISODate (businessLoop tz (newDate lastDateStr) 0 daysToAdd)"

section \<open>The forecasters\<close>

subsection \<open>Moving average (lines 22-69)\<close>

text \<open>The backtest loop, lines 36-46; \<^verbatim>\<open>data.length\<close> is the length of \<open>closePrices\<close>.\<close>

function maHistorical ::
  "real list \<Rightarrow> isodate list \<Rightarrow> nat \<Rightarrow> nat \<Rightarrow> PredictionResult list \<Rightarrow> PredictionResult list"
where
  "maHistorical closePrices dates windowSize i results =
     (if i < length closePrices then
        maHistorical closePrices dates windowSize (i + 1)
          (results @
            [\<lparr>date = dates ! i,
              actual = Some (closePrices ! i),
              predicted = toFixed2 (average (slice closePrices (i - windowSize) i)),
              modelName = MOVING_AVERAGE\<rparr>])
      else results)"
  by pat_completeness auto
termination
  by (relation "measure (\<lambda>(closePrices, dates, windowSize, i, results). length closePrices - i)")
    auto

declare maHistorical.simps [simp del]

text \<open>
  The forecast loop, lines 51-66. \<^verbatim>\<open>shift\<close> drops the first element (and leaves an empty
  array empty), \<^verbatim>\<open>push\<close> appends.
\<close>

function maFuture ::
  "int \<Rightarrow> isodate list \<Rightarrow> nat \<Rightarrow> nat \<Rightarrow> real list \<Rightarrow> PredictionResult list
    \<Rightarrow> PredictionResult list"
where
  "maFuture tz dates forecastDays i lastPredictions results =
     (if i < forecastDays then
        maFuture tz dates forecastDays (i + 1)
          (tl lastPredictions @ [toFixed2 (average lastPredictions)])
          (results @
            [\<lparr>date = getNextBusinessDay tz (dates ! (length dates - 1)) (i + 1),
              actual = None,
              predicted = toFixed2 (average lastPredictions),
              modelName = MOVING_AVERAGE\<rparr>])
      else results)"
  by pat_completeness auto
termination
  by (relation "measure (\<lambda>(tz, dates, forecastDays, i, lastPredictions, results).
        forecastDays - i)") auto

declare maFuture.simps [simp del]

text \<open>
  With an empty series (which passes the guard only for \<^verbatim>\<open>windowSize = 0\<close>) the expression
  \<^verbatim>\<open>dates[dates.length - 1]\<close> is \<^verbatim>\<open>undefined\<close>, \<^verbatim>\<open>new Date(undefined)\<close> is an invalid date,
  the \<^verbatim>\<open>while\<close> loop of \<^verbatim>\<open>getNextBusinessDay\<close> still ends (\<^verbatim>\<open>NaN !== 0 && NaN !== 6\<close>), and
  \<^verbatim>\<open>toISOString\<close> throws in the first round of the forecast loop.
\<close>

definition movingAveragePredict ::
  "int \<Rightarrow> StockDataPoint list \<Rightarrow> nat \<Rightarrow> nat \<Rightarrow> error + PredictionResult list"
where
  "movingAveragePredict tz data windowSize forecastDays =
     (if length data < windowSize then Inl InsufficientDataError
      else
        let closePrices = map close data;
            dates = map StockDataPoint.date data;
            results = maHistorical closePrices dates windowSize windowSize [];
            lastPredictions = sliceLast closePrices windowSize
        in if dates = [] \<and> 0 < forecastDays then Inl InvalidTimeValue
           else Inr (maFuture tz dates forecastDays 0 lastPredictions results))"

subsection \<open>Exponential smoothing (lines 75-126)\<close>

text \<open>The backtest loop, lines 92-102; it returns the final \<^verbatim>\<open>forecast\<close> with the results.\<close>

function esHistorical ::
  "real \<Rightarrow> real list \<Rightarrow> isodate list \<Rightarrow> nat \<Rightarrow> real \<Rightarrow> PredictionResult list
    \<Rightarrow> real \<times> PredictionResult list"
where
  "esHistorical alpha closePrices dates i forecast results =
     (if i < length closePrices then
        esHistorical alpha closePrices dates (i + 1)
          (alpha * closePrices ! (i - 1) + (1 - alpha) * forecast)
          (results @
            [\<lparr>date = dates ! i,
              actual = Some (closePrices ! i),
              predicted = toFixed2 (alpha * closePrices ! (i - 1) + (1 - alpha) * forecast),
              modelName = EXPONENTIAL_SMOOTHING\<rparr>])
      else (forecast, results))"
  by pat_completeness auto
termination
  by (relation "measure (\<lambda>(alpha, closePrices, dates, i, forecast, results).
        length closePrices - i)") auto

declare esHistorical.simps [simp del]

text \<open>The forecast loop, lines 107-123.\<close>

function esFuture ::
  "int \<Rightarrow> isodate list \<Rightarrow> real \<Rightarrow> nat \<Rightarrow> nat \<Rightarrow> real \<Rightarrow> real \<Rightarrow> PredictionResult list
    \<Rightarrow> PredictionResult list"
where
  "esFuture tz dates alpha forecastDays i lastActual forecast results =
     (if i < forecastDays then
        esFuture tz dates alpha forecastDays (i + 1)
          (toFixed2 (alpha * lastActual + (1 - alpha) * forecast))
          (alpha * lastActual + (1 - alpha) * forecast)
          (results @
            [\<lparr>date = getNextBusinessDay tz (dates ! (length dates - 1)) (i + 1),
              actual = None,
              predicted = toFixed2 (alpha * lastActual + (1 - alpha) * forecast),
              modelName = EXPONENTIAL_SMOOTHING\<rparr>])
      else results)"
  by pat_completeness auto
termination
  by (relation "measure (\<lambda>(tz, dates, alpha, forecastDays, i, lastActual, forecast, results).
        forecastDays - i)") auto

declare esFuture.simps [simp del]

definition exponentialSmoothingPredict ::
  "int \<Rightarrow> StockDataPoint list \<Rightarrow> real \<Rightarrow> nat \<Rightarrow> error + PredictionResult list"
where
  "exponentialSmoothingPredict tz data alpha forecastDays =
     (if length data < 2 then Inl InsufficientDataError
      else
        let closePrices = map close data;
            dates = map StockDataPoint.date data;
            (forecast, results) = esHistorical alpha closePrices dates 1 (closePrices ! 0) [];
            lastActual = closePrices ! (length closePrices - 1)
        in Inr (esFuture tz dates alpha forecastDays 0 lastActual forecast results))"

subsection \<open>Simplified ARIMA (lines 133-261)\<close>

text \<open>
  One round of the differencing loop, line 151: the callback reads the old \<^verbatim>\<open>diffPrices\<close>,
  since the variable is assigned only after \<^verbatim>\<open>map\<close> has returned.
\<close>

definition diffOnce :: "real list \<Rightarrow> real list" where
  "diffOnce diffPrices =
     map (\<lambda>idx. drop 1 diffPrices ! idx - diffPrices ! idx) [0..<length (drop 1 diffPrices)]"

text \<open>\<^verbatim>\<open>x || 0\<close> on a number: \<open>0\<close> is the falsy one.\<close>

definition orZero :: "real \<Rightarrow> real" where
  "orZero x = (if x = 0 then 0 else x)"

text \<open>Lines 165-168 and 171-174: the two inner loops of the backtest.\<close>

definition arComponent :: "nat \<Rightarrow> real list \<Rightarrow> real list \<Rightarrow> nat \<Rightarrow> real" where
  "arComponent p arCoefficients diffPrices i =
     foldl (\<lambda>acc j. acc + arCoefficients ! j * diffPrices ! (i - j - 1)) 0 [0..<p]"

definition maComponent :: "nat \<Rightarrow> real list \<Rightarrow> real list \<Rightarrow> real" where
  "maComponent q maCoefficients errors =
     foldl (\<lambda>acc j. acc + maCoefficients ! j * orZero (errors ! (length errors - j - 1))) 0
       [0..<min q (length errors)]"

text \<open>The backtest loop on the differenced series, lines 163-182.\<close>

function arimaHistorical ::
  "nat \<Rightarrow> nat \<Rightarrow> real list \<Rightarrow> real list \<Rightarrow> real list \<Rightarrow> nat \<Rightarrow> real list \<Rightarrow> real list
    \<Rightarrow> real list \<times> real list"
where
  "arimaHistorical p q diffPrices arCoefficients maCoefficients i errors predictions =
     (if i < length diffPrices then
        arimaHistorical p q diffPrices arCoefficients maCoefficients (i + 1)
          (errors @
            [diffPrices ! i
              - (arComponent p arCoefficients diffPrices i + maComponent q maCoefficients errors)])
          (predictions @
            [arComponent p arCoefficients diffPrices i + maComponent q maCoefficients errors])
      else (errors, predictions))"
  by pat_completeness auto
termination
  by (relation "measure (\<lambda>(p, q, diffPrices, arCoefficients, maCoefficients, i, errors,
        predictions). length diffPrices - i)") auto

declare arimaHistorical.simps [simp del]

text \<open>Lines 190-195: the prediction plus the \<open>d\<close> closes before \<open>actualIndex\<close>.\<close>

definition undiffHistorical :: "nat \<Rightarrow> real list \<Rightarrow> nat \<Rightarrow> real \<Rightarrow> real" where
  "undiffHistorical d closePrices actualIndex prediction =
     foldl (\<lambda>undiffValue j. undiffValue + closePrices ! (actualIndex - j - 1)) prediction [0..<d]"

text \<open>The loop of lines 188-206.\<close>

function arimaUndiff ::
  "nat \<Rightarrow> nat \<Rightarrow> nat \<Rightarrow> real list \<Rightarrow> isodate list \<Rightarrow> real list \<Rightarrow> nat \<Rightarrow> real list
    \<Rightarrow> PredictionResult list \<Rightarrow> real list \<times> PredictionResult list"
where
  "arimaUndiff p d q closePrices dates predictions i undiffPredictions results =
     (if i < length predictions then
        arimaUndiff p d q closePrices dates predictions (i + 1)
          (undiffPredictions @
            [undiffHistorical d closePrices (i + max p q + d) (predictions ! i)])
          (results @
            [\<lparr>date = dates ! (i + max p q + d),
              actual = Some (closePrices ! (i + max p q + d)),
              predicted =
                toFixed2 (undiffHistorical d closePrices (i + max p q + d) (predictions ! i)),
              modelName = ARIMA\<rparr>])
      else (undiffPredictions, results))"
  by pat_completeness auto
termination
  by (relation "measure (\<lambda>(p, d, q, closePrices, dates, predictions, i, undiffPredictions,
        results). length predictions - i)") auto

declare arimaUndiff.simps [simp del]

text \<open>Lines 217-226: the two inner loops of the forecast, on the trailing windows.\<close>

definition arFuture :: "nat \<Rightarrow> real list \<Rightarrow> real list \<Rightarrow> real" where
  "arFuture p arCoefficients lastPredictions =
     foldl (\<lambda>acc j. acc + arCoefficients ! j * lastPredictions ! (length lastPredictions - j - 1))
       0 [0..<min p (length lastPredictions)]"

definition maFutureComponent :: "nat \<Rightarrow> real list \<Rightarrow> real list \<Rightarrow> real" where
  "maFutureComponent q maCoefficients lastErrors =
     foldl (\<lambda>acc j. acc + maCoefficients ! j * lastErrors ! (length lastErrors - j - 1))
       0 [0..<min q (length lastErrors)]"

text \<open>Lines 232-241; the test \<^verbatim>\<open>i - j >= 0\<close> is \<open>j \<le> i\<close>.\<close>

definition undiffFuture :: "nat \<Rightarrow> nat \<Rightarrow> real list \<Rightarrow> real list \<Rightarrow> real \<Rightarrow> real" where
  "undiffFuture d i undiffPredictions lastActuals diffPrediction =
     foldl (\<lambda>undiffValue j.
              if j \<le> i
              then undiffValue + undiffPredictions ! (length undiffPredictions - j - 1)
              else undiffValue + lastActuals ! (length lastActuals - (j - i) - 1))
       diffPrediction [0..<d]"

text \<open>The forecast loop, lines 213-258.\<close>

function arimaFuture ::
  "int \<Rightarrow> isodate list \<Rightarrow> nat \<Rightarrow> nat \<Rightarrow> nat \<Rightarrow> real list \<Rightarrow> real list \<Rightarrow> real list \<Rightarrow> nat \<Rightarrow> nat
    \<Rightarrow> real list \<Rightarrow> real list \<Rightarrow> real list \<Rightarrow> PredictionResult list \<Rightarrow> PredictionResult list"
where
  "arimaFuture tz dates p d q arCoefficients maCoefficients lastActuals forecastDays i
      lastPredictions lastErrors undiffPredictions results =
     (if i < forecastDays then
        arimaFuture tz dates p d q arCoefficients maCoefficients lastActuals forecastDays (i + 1)
          (tl lastPredictions @
            [arFuture p arCoefficients lastPredictions
              + maFutureComponent q maCoefficients lastErrors])
          (tl lastErrors @ [0])
          (undiffPredictions @
            [toFixed2 (undiffFuture d i undiffPredictions lastActuals
               (arFuture p arCoefficients lastPredictions
                 + maFutureComponent q maCoefficients lastErrors))])
          (results @
            [\<lparr>date = getNextBusinessDay tz (dates ! (length dates - 1)) (i + 1),
              actual = None,
              predicted =
                toFixed2 (undiffFuture d i undiffPredictions lastActuals
                  (arFuture p arCoefficients lastPredictions
                    + maFutureComponent q maCoefficients lastErrors)),
              modelName = ARIMA\<rparr>])
      else results)"
  by pat_completeness auto
termination
  by (relation "measure (\<lambda>(tz, dates, p, d, q, arCoefficients, maCoefficients, lastActuals,
        forecastDays, i, lastPredictions, lastErrors, undiffPredictions, results).
        forecastDays - i)") auto

declare arimaFuture.simps [simp del]

definition arimaPredict ::
  "int \<Rightarrow> StockDataPoint list \<Rightarrow> nat \<Rightarrow> nat \<Rightarrow> nat \<Rightarrow> nat \<Rightarrow> error + PredictionResult list"
where
  "arimaPredict tz data p d q forecastDays =
     (if length data < max p q + d + 1 then Inl InsufficientDataError
      else
        let closePrices = map close data;
            dates = map StockDataPoint.date data;
            diffPrices = (diffOnce ^^ d) closePrices;
            arCoefficients = replicate p (1 / real p);
            maCoefficients = replicate q (1 / real q);
            (errors, predictions) =
              arimaHistorical p q diffPrices arCoefficients maCoefficients (max p q) [] [];
            (undiffPredictions, results) =
              arimaUndiff p d q closePrices dates predictions 0 [] [];
            lastPredictions = sliceLast predictions p;
            lastErrors = sliceLast errors q;
            lastActuals = sliceLast closePrices d
        in Inr (arimaFuture tz dates p d q arCoefficients maCoefficients
                  lastActuals forecastDays 0 lastPredictions lastErrors undiffPredictions
                  results))"

section \<open>Accuracy metrics and the selector\<close>

text \<open>Lines 283-293.\<close>

definition calculateMAE :: "PredictionResult list \<Rightarrow> real" where
  "calculateMAE predictions =
     (let validPairs = filter (\<lambda>p. actual p \<noteq> None) predictions
      in if length validPairs = 0 then 0
         else toFixed2
           (foldl (\<lambda>acc p. acc + \<bar>the (actual p) - predicted p\<bar>) 0 validPairs
              / real (length validPairs)))"

text \<open>
  Lines 296-307. Where an actual value is \<open>0\<close> the quotient is infinite or \<^verbatim>\<open>NaN\<close> in the
  code; the value of this definition says nothing there.
\<close>

definition calculateMPE :: "PredictionResult list \<Rightarrow> real" where
  "calculateMPE predictions =
     (let validPairs = filter (\<lambda>p. actual p \<noteq> None) predictions
      in if length validPairs = 0 then 0
         else toFixed2
           (foldl (\<lambda>acc p. acc + (predicted p - the (actual p)) / the (actual p) * 100) 0 validPairs
              / real (length validPairs)))"

record ModelMetrics =
  mae :: real
  mpe :: real

record Recommendation =
  bestModel :: ForecastingModel
  metrics :: "(ForecastingModel \<times> ModelMetrics) list"

text \<open>
  Lines 322-351. The \<^verbatim>\<open>metrics\<close> object is the list of its entries in the order the literal
  writes them, which is the order \<^verbatim>\<open>Object.entries\<close> visits them in; the callback of
  \<^verbatim>\<open>forEach\<close> updates the pair \<^verbatim>\<open>(bestModel, lowestMAE)\<close>.
\<close>

definition determineBestModel :: "(ForecastingModel \<Rightarrow> PredictionResult list) \<Rightarrow> Recommendation" where
  "determineBestModel predictions =
     (let metrics =
            [(MOVING_AVERAGE,
                \<lparr>mae = calculateMAE (predictions MOVING_AVERAGE),
                 mpe = calculateMPE (predictions MOVING_AVERAGE)\<rparr>),
             (EXPONENTIAL_SMOOTHING,
                \<lparr>mae = calculateMAE (predictions EXPONENTIAL_SMOOTHING),
                 mpe = calculateMPE (predictions EXPONENTIAL_SMOOTHING)\<rparr>),
             (ARIMA,
                \<lparr>mae = calculateMAE (predictions ARIMA),
                 mpe = calculateMPE (predictions ARIMA)\<rparr>)];
          (bestModel, lowestMAE) =
            foldl (\<lambda>(bestModel, lowestMAE) (model, m).
                     if mae m < lowestMAE then (model, mae m) else (bestModel, lowestMAE))
              (MOVING_AVERAGE, mae (the (map_of metrics MOVING_AVERAGE)))
              metrics
      in \<lparr>bestModel = bestModel, metrics = metrics\<rparr>)"

section \<open>The selector\<close>

text \<open>The priority order of the spec: the order in which the selector visits the models.\<close>

fun priority :: "ForecastingModel \<Rightarrow> nat" where
  "priority MOVING_AVERAGE = 0"
| "priority EXPONENTIAL_SMOOTHING = 1"
| "priority ARIMA = 2"

lemma determineBestModel_metrics:
  "metrics (determineBestModel ps) =
     [(MOVING_AVERAGE, \<lparr>mae = calculateMAE (ps MOVING_AVERAGE), mpe = calculateMPE (ps MOVING_AVERAGE)\<rparr>),
      (EXPONENTIAL_SMOOTHING, \<lparr>mae = calculateMAE (ps EXPONENTIAL_SMOOTHING), mpe = calculateMPE (ps EXPONENTIAL_SMOOTHING)\<rparr>),
      (ARIMA, \<lparr>mae = calculateMAE (ps ARIMA), mpe = calculateMPE (ps ARIMA)\<rparr>)]"
  by (simp add: determineBestModel_def Let_def split: prod.split)

lemma determineBestModel_best:
  "bestModel (determineBestModel ps) =
     (if calculateMAE (ps EXPONENTIAL_SMOOTHING) < calculateMAE (ps MOVING_AVERAGE)
      then (if calculateMAE (ps ARIMA) < calculateMAE (ps EXPONENTIAL_SMOOTHING)
            then ARIMA else EXPONENTIAL_SMOOTHING)
      else (if calculateMAE (ps ARIMA) < calculateMAE (ps MOVING_AVERAGE)
            then ARIMA else MOVING_AVERAGE))"
  by (simp add: determineBestModel_def Let_def split: prod.split)

text \<open>
  C1. For every record of three prediction lists, the metrics map has an entry for exactly
  the three models, in the order MovingAverage, ExponentialSmoothing, ARIMA, each the pair
  of the model's MAE and MPE; the MAE of the selected model is at most the MAE of every
  model; and a model whose MAE equals the selected one's does not come before it in the
  priority order.
\<close>

theorem determineBestModel_lowest_mae:
  "map fst (metrics (determineBestModel ps)) = [MOVING_AVERAGE, EXPONENTIAL_SMOOTHING, ARIMA]
   \<and> (\<forall>m. map_of (metrics (determineBestModel ps)) m
          = Some \<lparr>mae = calculateMAE (ps m), mpe = calculateMPE (ps m)\<rparr>)
   \<and> (\<forall>m. calculateMAE (ps (bestModel (determineBestModel ps))) \<le> calculateMAE (ps m))
   \<and> (\<forall>m. calculateMAE (ps m) = calculateMAE (ps (bestModel (determineBestModel ps)))
          \<longrightarrow> priority (bestModel (determineBestModel ps)) \<le> priority m)"
proof (intro conjI allI impI)
  show "map fst (metrics (determineBestModel ps)) = [MOVING_AVERAGE, EXPONENTIAL_SMOOTHING, ARIMA]"
    by (simp add: determineBestModel_metrics)
next
  fix m
  show "map_of (metrics (determineBestModel ps)) m
      = Some \<lparr>mae = calculateMAE (ps m), mpe = calculateMPE (ps m)\<rparr>"
    by (cases m) (simp_all add: determineBestModel_metrics)
next
  fix m
  show "calculateMAE (ps (bestModel (determineBestModel ps))) \<le> calculateMAE (ps m)"
    by (cases m) (simp_all add: determineBestModel_best)
next
  fix m
  assume "calculateMAE (ps m) = calculateMAE (ps (bestModel (determineBestModel ps)))"
  then show "priority (bestModel (determineBestModel ps)) \<le> priority m"
    by (cases m) (simp_all add: determineBestModel_best split: if_splits)
qed

text \<open>
  Three one-entry lists with MAE 2, 1 and 1: exponential smoothing and ARIMA tie for the
  lowest MAE, and exponential smoothing, the earlier one, is selected.
\<close>

definition tiePredictions :: "ForecastingModel \<Rightarrow> PredictionResult list" where
  "tiePredictions m =
     [\<lparr>date = 0, actual = Some 10,
       predicted = (case m of MOVING_AVERAGE \<Rightarrow> 12 | EXPONENTIAL_SMOOTHING \<Rightarrow> 11 | ARIMA \<Rightarrow> 9),
       modelName = m\<rparr>]"

theorem determineBestModel_lowest_mae_witness:
  "bestModel (determineBestModel tiePredictions) = EXPONENTIAL_SMOOTHING
   \<and> calculateMAE (tiePredictions MOVING_AVERAGE) = 2
   \<and> calculateMAE (tiePredictions EXPONENTIAL_SMOOTHING) = 1
   \<and> calculateMAE (tiePredictions ARIMA) = 1
   \<and> priority (bestModel (determineBestModel tiePredictions)) \<le> priority ARIMA"
proof -
  have mae: "calculateMAE (tiePredictions MOVING_AVERAGE) = 2"
    "calculateMAE (tiePredictions EXPONENTIAL_SMOOTHING) = 1"
    "calculateMAE (tiePredictions ARIMA) = 1"
    by (simp_all add: calculateMAE_def tiePredictions_def toFixed2_def)
  have best: "bestModel (determineBestModel tiePredictions) = EXPONENTIAL_SMOOTHING"
    by (simp add: determineBestModel_best mae)
  from determineBestModel_lowest_mae[of tiePredictions] best mae
  have "priority (bestModel (determineBestModel tiePredictions)) \<le> priority ARIMA"
    by simp
  with best mae show ?thesis by simp
qed

section \<open>Properties of the business-day calendar\<close>

text \<open>
  A business day is a day that is not a Saturday or a Sunday; day 0 is a Thursday.
  \<open>businessDaysIn d e\<close> counts the business days after \<open>d\<close> up to and including \<open>e\<close>.
\<close>

definition isBusinessDay :: "isodate \<Rightarrow> bool" where
  "isBusinessDay d = ((d + 4) mod 7 \<noteq> 0 \<and> (d + 4) mod 7 \<noteq> 6)"

definition businessDaysIn :: "isodate \<Rightarrow> isodate \<Rightarrow> nat" where
  "businessDaysIn d e = length (filter isBusinessDay [d + 1..e])"

text \<open>In every time zone the loop adds whole days, at least one per business day asked for.\<close>

lemma businessLoop_done: "\<not> a < n \<Longrightarrow> businessLoop tz t a n = t"
  by (subst businessLoop.simps) simp

lemma businessLoop_count:
  assumes "a < n" and "getDay tz (t + msPerDay) \<noteq> 0 \<and> getDay tz (t + msPerDay) \<noteq> 6"
  shows "businessLoop tz t a n = businessLoop tz (t + msPerDay) (a + 1) n"
  using assms by (subst businessLoop.simps) simp

lemma businessLoop_skip:
  assumes "a < n" and "\<not> (getDay tz (t + msPerDay) \<noteq> 0 \<and> getDay tz (t + msPerDay) \<noteq> 6)"
  shows "businessLoop tz t a n = businessLoop tz (t + msPerDay) a n"
  using assms by (subst businessLoop.simps) auto

lemma businessLoop_advance:
  "\<exists>j. n - a \<le> j \<and> businessLoop tz t a n = t + int j * msPerDay"
proof (induction tz t a n rule: businessLoop.induct)
  case (1 tz t a n)
  show ?case
  proof (cases "a < n")
    case False
    then have "businessLoop tz t a n = t + int 0 * msPerDay"
      by (simp add: businessLoop_done)
    with False show ?thesis by (intro exI[of _ 0]) simp
  next
    case True
    show ?thesis
    proof (cases "getDay tz (t + msPerDay) \<noteq> 0 \<and> getDay tz (t + msPerDay) \<noteq> 6")
      case bd: True
      from "1.IH"(1)[OF True bd] obtain j where
        j: "n - (a + 1) \<le> j" "businessLoop tz (t + msPerDay) (a + 1) n = t + msPerDay + int j * msPerDay"
        by blast
      have "businessLoop tz t a n = businessLoop tz (t + msPerDay) (a + 1) n"
        using True bd by (rule businessLoop_count)
      with j have "businessLoop tz t a n = t + int (Suc j) * msPerDay" "n - a \<le> Suc j"
        by (simp_all add: algebra_simps)
      then show ?thesis by blast
    next
      case we: False
      from "1.IH"(2)[OF True we] obtain j where
        j: "n - a \<le> j" "businessLoop tz (t + msPerDay) a n = t + msPerDay + int j * msPerDay"
        by blast
      have "businessLoop tz t a n = businessLoop tz (t + msPerDay) a n"
        using True we by (rule businessLoop_skip)
      with j have "businessLoop tz t a n = t + int (Suc j) * msPerDay" "n - a \<le> Suc j"
        by (simp_all add: algebra_simps)
      then show ?thesis by blast
    qed
  qed
qed

lemma toISODate_newDate_add: "toISODate (newDate d + int j * msPerDay) = d + int j"
proof -
  have "newDate d + int j * msPerDay = (d + int j) * msPerDay"
    by (simp add: newDate_def distrib_right)
  moreover have "msPerDay \<noteq> 0"
    by (simp add: msPerDay_def)
  ultimately show ?thesis
    by (simp add: toISODate_def)
qed



lemma businessLoop_split:
  "a \<le> n \<Longrightarrow> businessLoop tz t a (n + 1) = businessLoop tz (businessLoop tz t a n) n (n + 1)"
proof (induction tz t a n rule: businessLoop.induct)
  case (1 tz t a n)
  show ?case
  proof (cases "a < n")
    case False
    then show ?thesis using "1.prems" by (simp add: businessLoop_done)
  next
    case True
    then have a1: "a < n + 1" by simp
    show ?thesis
    proof (cases "getDay tz (t + msPerDay) \<noteq> 0 \<and> getDay tz (t + msPerDay) \<noteq> 6")
      case bd: True
      have "businessLoop tz t a (n + 1) = businessLoop tz (t + msPerDay) (a + 1) (n + 1)"
        using a1 bd by (rule businessLoop_count)
      moreover have "businessLoop tz t a n = businessLoop tz (t + msPerDay) (a + 1) n"
        using True bd by (rule businessLoop_count)
      ultimately show ?thesis using "1.IH"(1)[OF True bd] True by simp
    next
      case we: False
      have "businessLoop tz t a (n + 1) = businessLoop tz (t + msPerDay) a (n + 1)"
        using a1 we by (rule businessLoop_skip)
      moreover have "businessLoop tz t a n = businessLoop tz (t + msPerDay) a n"
        using True we by (rule businessLoop_skip)
      ultimately show ?thesis using "1.IH"(2)[OF True we] True by simp
    qed
  qed
qed

lemma getNextBusinessDay_strict_mono_step:
  "getNextBusinessDay tz d k < getNextBusinessDay tz d (k + 1)"
proof -
  obtain j where j: "businessLoop tz (newDate d) 0 k = newDate d + int j * msPerDay"
    using businessLoop_advance by blast
  obtain j' where j': "(k + 1) - k \<le> j'"
    "businessLoop tz (newDate d + int j * msPerDay) k (k + 1) = newDate d + int j * msPerDay + int j' * msPerDay"
    using businessLoop_advance by blast
  have "businessLoop tz (newDate d) 0 (k + 1) = newDate d + int (j + j') * msPerDay"
    using businessLoop_split[of 0 k tz "newDate d"] j j' by (simp add: algebra_simps)
  then have "getNextBusinessDay tz d (k + 1) = d + int (j + j')"
    unfolding getNextBusinessDay_def by (simp only: toISODate_newDate_add)
  moreover have "getNextBusinessDay tz d k = d + int j"
    unfolding getNextBusinessDay_def j by (simp only: toISODate_newDate_add)
  ultimately show ?thesis using j'(1) by simp
qed

lemma getNextBusinessDay_strict_mono:
  "k < k' \<Longrightarrow> getNextBusinessDay tz d k < getNextBusinessDay tz d k'"
proof (induction k')
  case 0
  then show ?case by simp
next
  case (Suc k')
  then show ?case
    using getNextBusinessDay_strict_mono_step[of tz d k']
    by (cases "k = k'") (auto simp: less_Suc_eq)
qed

text \<open>
  In a time zone at or east of UTC (offset from 0 up to, not including, 24 hours) the local
  day of a UTC midnight is the UTC day, and the loop returns the \<open>k\<close>-th business day.
\<close>

lemma getDay_east:
  assumes "0 \<le> tz" "tz < 1440"
  shows "getDay tz (newDate e) = (e + 4) mod 7"
proof -
  have "(e * 86400000 + tz * 60000) div 86400000 = e"
    using assms by (simp add: div_pos_pos_trivial)
  then show ?thesis
    by (simp add: getDay_def newDate_def msPerDay_def)
qed

lemma newDate_next: "newDate e + msPerDay = newDate (e + 1)"
  by (simp add: newDate_def distrib_right)

lemma businessDaysIn_step:
  "e + 1 \<le> e' \<Longrightarrow>
   businessDaysIn e e' = (if isBusinessDay (e + 1) then 1 else 0) + businessDaysIn (e + 1) e'"
  unfolding businessDaysIn_def by (subst upto_rec1) (simp_all add: add.commute)

lemma businessLoop_east:
  "0 \<le> tz \<Longrightarrow> tz < 1440 \<Longrightarrow> t = newDate e \<Longrightarrow>
    \<exists>e'. businessLoop tz t a n = newDate e' \<and> e \<le> e' \<and> businessDaysIn e e' = n - a \<and>
         (a < n \<longrightarrow> isBusinessDay e')"
proof (induction tz t a n arbitrary: e rule: businessLoop.induct)
  case (1 tz t a n)
  show ?case
  proof (cases "a < n")
    case False
    then show ?thesis
      using "1.prems" by (intro exI[of _ e]) (simp add: businessLoop_done businessDaysIn_def)
  next
    case True
    have next_day: "t + msPerDay = newDate (e + 1)"
      using "1.prems" by (simp add: newDate_next)
    have dow: "getDay tz (t + msPerDay) = (e + 1 + 4) mod 7"
      unfolding next_day using "1.prems" by (intro getDay_east)
    show ?thesis
    proof (cases "getDay tz (t + msPerDay) \<noteq> 0 \<and> getDay tz (t + msPerDay) \<noteq> 6")
      case bd: True
      then have b: "isBusinessDay (e + 1)"
        by (simp add: isBusinessDay_def dow)
      from "1.IH"(1)[OF True bd "1.prems"(1,2) next_day] obtain e' where
        e': "businessLoop tz (t + msPerDay) (a + 1) n = newDate e'" "e + 1 \<le> e'"
            "businessDaysIn (e + 1) e' = n - (a + 1)" "a + 1 < n \<longrightarrow> isBusinessDay e'"
        by blast
      have last: "isBusinessDay e'"
      proof (cases "a + 1 < n")
        case True
        with e' show ?thesis by simp
      next
        case False
        then have "businessLoop tz (t + msPerDay) (a + 1) n = t + msPerDay"
          by (simp add: businessLoop_done)
        with e'(1) next_day have "newDate e' = newDate (e + 1)" by simp
        then have "e' = e + 1" by (simp add: newDate_def msPerDay_def)
        with b show ?thesis by simp
      qed
      have "businessLoop tz t a n = newDate e'"
        using businessLoop_count[OF True bd] e'(1) by simp
      moreover have "businessDaysIn e e' = n - a"
        using businessDaysIn_step[OF e'(2)] b e'(3) True by simp
      ultimately show ?thesis using e'(2) last by (intro exI[of _ e']) simp
    next
      case we: False
      then have b: "\<not> isBusinessDay (e + 1)"
        by (simp add: isBusinessDay_def dow)
      from "1.IH"(2)[OF True we "1.prems"(1,2) next_day] obtain e' where
        e': "businessLoop tz (t + msPerDay) a n = newDate e'" "e + 1 \<le> e'"
            "businessDaysIn (e + 1) e' = n - a" "a < n \<longrightarrow> isBusinessDay e'"
        by blast
      have "businessLoop tz t a n = newDate e'"
        using businessLoop_skip[OF True we] e'(1) by simp
      moreover have "businessDaysIn e e' = n - a"
        using businessDaysIn_step[OF e'(2)] b e'(3) by simp
      ultimately show ?thesis using e'(2,4) True by (intro exI[of _ e']) simp
    qed
  qed
qed

lemma toISODate_newDate: "toISODate (newDate e) = e"
  by (simp add: toISODate_def newDate_def msPerDay_def)

lemma getNextBusinessDay_east:
  assumes "0 \<le> tz" "tz < 1440" "0 < k"
  shows "isBusinessDay (getNextBusinessDay tz d k) \<and>
         businessDaysIn d (getNextBusinessDay tz d k) = k"
proof -
  obtain e' where "businessLoop tz (newDate d) 0 k = newDate e'" "businessDaysIn d e' = k - 0"
      "0 < k \<longrightarrow> isBusinessDay e'"
    using businessLoop_east[OF assms(1,2) refl, of d 0 k] by blast
  with assms(3) show ?thesis
    by (simp add: getNextBusinessDay_def toISODate_newDate)
qed

section \<open>The loops in closed form\<close>

subsection \<open>Moving average\<close>

text \<open>
  The entry the backtest loop pushes at index \<open>i\<close>, the entry the forecast loop pushes in
  round \<open>i\<close> for the current window, and one slide of the window.
\<close>

definition maBacktestEntry :: "real list \<Rightarrow> isodate list \<Rightarrow> nat \<Rightarrow> nat \<Rightarrow> PredictionResult" where
  "maBacktestEntry closePrices dates windowSize i =
     \<lparr>date = dates ! i, actual = Some (closePrices ! i),
      predicted = toFixed2 (average (slice closePrices (i - windowSize) i)),
      modelName = MOVING_AVERAGE\<rparr>"

definition maSlide :: "real list \<Rightarrow> real list" where
  "maSlide window = tl window @ [toFixed2 (average window)]"

definition maForecastEntry :: "int \<Rightarrow> isodate list \<Rightarrow> real list \<Rightarrow> nat \<Rightarrow> PredictionResult" where
  "maForecastEntry tz dates window i =
     \<lparr>date = getNextBusinessDay tz (dates ! (length dates - 1)) (i + 1), actual = None,
      predicted = toFixed2 (average window), modelName = MOVING_AVERAGE\<rparr>"

lemma maHistorical_eq:
  "maHistorical cs ds w i rs = rs @ map (maBacktestEntry cs ds w) [i..<length cs]"
proof (induction cs ds w i rs rule: maHistorical.induct)
  case (1 cs ds w i rs)
  show ?case
  proof (cases "i < length cs")
    case True
    then have "[i..<length cs] = i # [i + 1..<length cs]"
      by (simp add: upt_conv_Cons)
    with True 1 show ?thesis
      by (subst maHistorical.simps) (simp add: maBacktestEntry_def)
  next
    case False
    then show ?thesis
      by (subst maHistorical.simps) simp
  qed
qed

lemma maFuture_step:
  "i < fd \<Longrightarrow> maFuture tz ds fd i lp rs =
     maFuture tz ds fd (i + 1) (maSlide lp) (rs @ [maForecastEntry tz ds lp i])"
  by (subst maFuture.simps) (simp add: maSlide_def maForecastEntry_def)

lemma maFuture_done: "\<not> i < fd \<Longrightarrow> maFuture tz ds fd i lp rs = rs"
  by (subst maFuture.simps) simp

lemma maFuture_eq:
  "maFuture tz ds fd i lp rs =
     rs @ map (\<lambda>k. maForecastEntry tz ds ((maSlide ^^ (k - i)) lp) k) [i..<fd]"
proof (induction "fd - i" arbitrary: i lp rs)
  case 0
  then show ?case by (simp add: maFuture_done)
next
  case (Suc n)
  then have less: "i < fd" and n: "n = fd - (i + 1)"
    by simp_all
  have upt: "[i..<fd] = i # [i + 1..<fd]"
    using less by (simp add: upt_conv_Cons)
  have shift: "(maSlide ^^ (k - (i + 1))) (maSlide lp) = (maSlide ^^ (k - i)) lp"
    if "k \<in> set [i + 1..<fd]" for k
  proof -
    from that have "k - i = Suc (k - (i + 1))" by auto
    then show ?thesis by (simp add: funpow_swap1)
  qed
  have "maFuture tz ds fd i lp rs =
      (rs @ [maForecastEntry tz ds lp i]) @
      map (\<lambda>k. maForecastEntry tz ds ((maSlide ^^ (k - (i + 1))) (maSlide lp)) k) [i + 1..<fd]"
    using Suc.hyps(1)[OF n] by (simp only: maFuture_step[OF less])
  also have "\<dots> = rs @ map (\<lambda>k. maForecastEntry tz ds ((maSlide ^^ (k - i)) lp) k) [i..<fd]"
    unfolding upt using shift by (simp cong: map_cong)
  finally show ?case .
qed

lemma movingAveragePredict_eq:
  assumes "windowSize \<le> length data" and "data \<noteq> [] \<or> forecastDays = 0"
  shows "movingAveragePredict tz data windowSize forecastDays =
    Inr (map (maBacktestEntry (map close data) (map StockDataPoint.date data) windowSize)
           [windowSize..<length data]
         @ map (\<lambda>k. maForecastEntry tz (map StockDataPoint.date data)
                  ((maSlide ^^ k) (sliceLast (map close data) windowSize)) k) [0..<forecastDays])"
  using assms by (auto simp: movingAveragePredict_def maHistorical_eq maFuture_eq Let_def)

subsection \<open>Exponential smoothing\<close>

text \<open>
  The smoothed value \<open>F\<^sub>i\<close> of the spec: seeded with the first close and updated with the
  close before index \<open>i\<close>.
\<close>

fun smoothed :: "real \<Rightarrow> real list \<Rightarrow> nat \<Rightarrow> real" where
  "smoothed alpha closePrices 0 = closePrices ! 0"
| "smoothed alpha closePrices (Suc i) =
     alpha * closePrices ! i + (1 - alpha) * smoothed alpha closePrices i"

definition esBacktestEntry :: "real \<Rightarrow> real list \<Rightarrow> isodate list \<Rightarrow> nat \<Rightarrow> PredictionResult" where
  "esBacktestEntry alpha closePrices dates i =
     \<lparr>date = dates ! i, actual = Some (closePrices ! i),
      predicted = toFixed2 (smoothed alpha closePrices i),
      modelName = EXPONENTIAL_SMOOTHING\<rparr>"

text \<open>One round of the forecast loop on the pair \<open>(lastActual, forecast)\<close>.\<close>

definition esNext :: "real \<Rightarrow> real \<times> real \<Rightarrow> real \<times> real" where
  "esNext alpha s =
     (toFixed2 (alpha * fst s + (1 - alpha) * snd s), alpha * fst s + (1 - alpha) * snd s)"

definition esForecastEntry :: "int \<Rightarrow> isodate list \<Rightarrow> real \<times> real \<Rightarrow> nat \<Rightarrow> PredictionResult" where
  "esForecastEntry tz dates s i =
     \<lparr>date = getNextBusinessDay tz (dates ! (length dates - 1)) (i + 1), actual = None,
      predicted = fst s, modelName = EXPONENTIAL_SMOOTHING\<rparr>"

lemma esHistorical_step:
  "i < length cs \<Longrightarrow> esHistorical alpha cs ds i f rs =
     esHistorical alpha cs ds (i + 1) (alpha * cs ! (i - 1) + (1 - alpha) * f)
       (rs @ [\<lparr>date = ds ! i, actual = Some (cs ! i),
               predicted = toFixed2 (alpha * cs ! (i - 1) + (1 - alpha) * f),
               modelName = EXPONENTIAL_SMOOTHING\<rparr>])"
  by (subst esHistorical.simps) simp

lemma esHistorical_done: "\<not> i < length cs \<Longrightarrow> esHistorical alpha cs ds i f rs = (f, rs)"
  by (subst esHistorical.simps) simp

lemma esHistorical_eq:
  "1 \<le> i \<Longrightarrow> i \<le> length cs \<Longrightarrow>
   esHistorical alpha cs ds i (smoothed alpha cs (i - 1)) rs =
     (smoothed alpha cs (length cs - 1), rs @ map (esBacktestEntry alpha cs ds) [i..<length cs])"
proof (induction "length cs - i" arbitrary: i rs)
  case 0
  then have "i = length cs" by simp
  then show ?case by (simp add: esHistorical_done)
next
  case (Suc n)
  then have less: "i < length cs" and n: "n = length cs - (i + 1)"
    by simp_all
  from Suc.prems(1) obtain j where i: "i = Suc j"
    by (cases i) simp_all
  have next_f: "alpha * cs ! (i - 1) + (1 - alpha) * smoothed alpha cs (i - 1) = smoothed alpha cs i"
    by (simp add: i)
  have upt: "[i..<length cs] = i # [i + 1..<length cs]"
    using less by (simp add: upt_conv_Cons)
  have "esHistorical alpha cs ds i (smoothed alpha cs (i - 1)) rs =
      esHistorical alpha cs ds (i + 1) (smoothed alpha cs ((i + 1) - 1))
        (rs @ [esBacktestEntry alpha cs ds i])"
    unfolding esHistorical_step[OF less] next_f by (simp add: esBacktestEntry_def)
  also have "\<dots> = (smoothed alpha cs (length cs - 1),
      (rs @ [esBacktestEntry alpha cs ds i]) @ map (esBacktestEntry alpha cs ds) [i + 1..<length cs])"
    using less by (intro Suc.hyps(1)[OF n]) simp_all
  finally show ?case by (simp add: upt)
qed

lemma esFuture_step:
  "i < fd \<Longrightarrow> esFuture tz ds alpha fd i la f rs =
     esFuture tz ds alpha fd (i + 1) (fst (esNext alpha (la, f))) (snd (esNext alpha (la, f)))
       (rs @ [esForecastEntry tz ds (esNext alpha (la, f)) i])"
  by (subst esFuture.simps) (simp add: esNext_def esForecastEntry_def)

lemma esFuture_done: "\<not> i < fd \<Longrightarrow> esFuture tz ds alpha fd i la f rs = rs"
  by (subst esFuture.simps) simp

lemma esFuture_eq:
  "esFuture tz ds alpha fd i (fst s) (snd s) rs =
     rs @ map (\<lambda>k. esForecastEntry tz ds ((esNext alpha ^^ (k + 1 - i)) s) k) [i..<fd]"
proof (induction "fd - i" arbitrary: i s rs)
  case 0
  then show ?case by (simp add: esFuture_done)
next
  case (Suc n)
  then have less: "i < fd" and n: "n = fd - (i + 1)"
    by simp_all
  have upt: "[i..<fd] = i # [i + 1..<fd]"
    using less by (simp add: upt_conv_Cons)
  have shift: "(esNext alpha ^^ (k + 1 - (i + 1))) (esNext alpha s) = (esNext alpha ^^ (k + 1 - i)) s"
    if "k \<in> set [i + 1..<fd]" for k
  proof -
    from that have "k + 1 - i = Suc (k + 1 - (i + 1))" by auto
    then show ?thesis by (simp add: funpow_swap1)
  qed
  have "esFuture tz ds alpha fd i (fst s) (snd s) rs =
      (rs @ [esForecastEntry tz ds (esNext alpha s) i]) @
      map (\<lambda>k. esForecastEntry tz ds ((esNext alpha ^^ (k + 1 - (i + 1))) (esNext alpha s)) k)
        [i + 1..<fd]"
    using Suc.hyps(1)[OF n, of "esNext alpha s"] by (simp only: esFuture_step[OF less] prod.collapse)
  also have "\<dots> =
      rs @ map (\<lambda>k. esForecastEntry tz ds ((esNext alpha ^^ (k + 1 - i)) s) k) [i..<fd]"
    unfolding upt using shift by (simp cong: map_cong)
  finally show ?case .
qed

lemma exponentialSmoothingPredict_eq:
  assumes "2 \<le> length data"
  shows "exponentialSmoothingPredict tz data alpha forecastDays =
    Inr (map (esBacktestEntry alpha (map close data) (map StockDataPoint.date data))
           [1..<length data]
         @ map (\<lambda>k. esForecastEntry tz (map StockDataPoint.date data)
                  ((esNext alpha ^^ (k + 1))
                     (map close data ! (length data - 1),
                      smoothed alpha (map close data) (length data - 1))) k)
             [0..<forecastDays])"
proof -
  let ?cs = "map close data" and ?ds = "map StockDataPoint.date data"
  have hist: "esHistorical alpha ?cs ?ds 1 (?cs ! 0) [] =
      (smoothed alpha ?cs (length data - 1), map (esBacktestEntry alpha ?cs ?ds) [1..<length data])"
    using esHistorical_eq[of 1 ?cs alpha ?ds "[]"] assms by simp
  have "exponentialSmoothingPredict tz data alpha forecastDays =
      Inr (esFuture tz ?ds alpha forecastDays 0 (?cs ! (length ?cs - 1))
             (smoothed alpha ?cs (length data - 1))
             (map (esBacktestEntry alpha ?cs ?ds) [1..<length data]))"
    unfolding exponentialSmoothingPredict_def Let_def hist using assms by simp
  then show ?thesis
    using esFuture_eq[of tz ?ds alpha forecastDays 0
        "(?cs ! (length data - 1), smoothed alpha ?cs (length data - 1))"]
    by simp
qed

subsection \<open>Simplified ARIMA\<close>

lemma length_diffOnce: "length (diffOnce xs) = length xs - 1"
  by (simp add: diffOnce_def)

lemma length_differencing: "length ((diffOnce ^^ d) xs) = length xs - d"
  by (induction d) (simp_all add: length_diffOnce)

lemma nth_diffOnce:
  assumes "i + 1 < length xs"
  shows "diffOnce xs ! i = xs ! (i + 1) - xs ! i"
proof -
  from assms have "i < length xs - 1" by simp
  then show ?thesis by (simp add: diffOnce_def)
qed

text \<open>The state of the backtest loop after \<open>k\<close> rounds: the residuals and the predictions so far.\<close>

fun arimaBacktest ::
  "nat \<Rightarrow> nat \<Rightarrow> real list \<Rightarrow> real list \<Rightarrow> real list \<Rightarrow> nat \<Rightarrow> real list \<times> real list"
where
  "arimaBacktest p q diffPrices ar ma 0 = ([], [])"
| "arimaBacktest p q diffPrices ar ma (Suc k) =
     (let (errors, predictions) = arimaBacktest p q diffPrices ar ma k;
          prediction = arComponent p ar diffPrices (max p q + k) + maComponent q ma errors
      in (errors @ [diffPrices ! (max p q + k) - prediction], predictions @ [prediction]))"

lemma length_arimaBacktest:
  "length (fst (arimaBacktest p q diff ar ma k)) = k \<and>
   length (snd (arimaBacktest p q diff ar ma k)) = k"
  by (induction k) (auto simp: Let_def split: prod.split)

lemma arimaHistorical_step:
  "i < length diff \<Longrightarrow> arimaHistorical p q diff ar ma i es ps =
     arimaHistorical p q diff ar ma (i + 1)
       (es @ [diff ! i - (arComponent p ar diff i + maComponent q ma es)])
       (ps @ [arComponent p ar diff i + maComponent q ma es])"
  by (subst arimaHistorical.simps) simp

lemma arimaHistorical_done:
  "\<not> i < length diff \<Longrightarrow> arimaHistorical p q diff ar ma i es ps = (es, ps)"
  by (subst arimaHistorical.simps) simp

lemma arimaHistorical_eq:
  "max p q + k \<le> length diff \<Longrightarrow>
   arimaHistorical p q diff ar ma (max p q + k)
     (fst (arimaBacktest p q diff ar ma k)) (snd (arimaBacktest p q diff ar ma k)) =
   arimaBacktest p q diff ar ma (length diff - max p q)"
proof (induction "length diff - (max p q + k)" arbitrary: k)
  case 0
  then have "length diff - max p q = k" by simp
  with 0 show ?case by (simp add: arimaHistorical_done)
next
  case (Suc n)
  then have less: "max p q + k < length diff" and n: "n = length diff - (max p q + Suc k)"
    by simp_all
  have "arimaHistorical p q diff ar ma (max p q + k)
      (fst (arimaBacktest p q diff ar ma k)) (snd (arimaBacktest p q diff ar ma k)) =
    arimaHistorical p q diff ar ma (max p q + Suc k)
      (fst (arimaBacktest p q diff ar ma (Suc k))) (snd (arimaBacktest p q diff ar ma (Suc k)))"
    unfolding arimaHistorical_step[OF less] by (simp add: Let_def split: prod.split)
  also have "\<dots> = arimaBacktest p q diff ar ma (length diff - max p q)"
    using less by (intro Suc.hyps(1)[OF n]) simp
  finally show ?case .
qed

definition arimaBacktestEntry ::
  "nat \<Rightarrow> nat \<Rightarrow> nat \<Rightarrow> real list \<Rightarrow> isodate list \<Rightarrow> real list \<Rightarrow> nat \<Rightarrow> PredictionResult"
where
  "arimaBacktestEntry p d q closePrices dates predictions i =
     \<lparr>date = dates ! (i + max p q + d), actual = Some (closePrices ! (i + max p q + d)),
      predicted = toFixed2 (undiffHistorical d closePrices (i + max p q + d) (predictions ! i)),
      modelName = ARIMA\<rparr>"

lemma arimaUndiff_step:
  "i < length ps \<Longrightarrow> arimaUndiff p d q cs ds ps i ups rs =
     arimaUndiff p d q cs ds ps (i + 1)
       (ups @ [undiffHistorical d cs (i + max p q + d) (ps ! i)])
       (rs @ [arimaBacktestEntry p d q cs ds ps i])"
  by (subst arimaUndiff.simps) (simp add: arimaBacktestEntry_def)

lemma arimaUndiff_done: "\<not> i < length ps \<Longrightarrow> arimaUndiff p d q cs ds ps i ups rs = (ups, rs)"
  by (subst arimaUndiff.simps) simp

lemma arimaUndiff_eq:
  "arimaUndiff p d q cs ds ps i ups rs =
     (ups @ map (\<lambda>k. undiffHistorical d cs (k + max p q + d) (ps ! k)) [i..<length ps],
      rs @ map (arimaBacktestEntry p d q cs ds ps) [i..<length ps])"
proof (induction "length ps - i" arbitrary: i ups rs)
  case 0
  then show ?case by (simp add: arimaUndiff_done)
next
  case (Suc n)
  then have less: "i < length ps" and n: "n = length ps - (i + 1)"
    by simp_all
  have upt: "[i..<length ps] = i # [i + 1..<length ps]"
    using less by (simp add: upt_conv_Cons)
  show ?case
    unfolding arimaUndiff_step[OF less] Suc.hyps(1)[OF n] upt by simp
qed

text \<open>
  One round of the forecast loop on the round number and the three arrays it updates
  (\<open>lastPredictions\<close>, \<open>lastErrors\<close>, \<open>undiffPredictions\<close>), and the entry it pushes.
\<close>

definition arimaDiffPrediction :: "nat \<Rightarrow> nat \<Rightarrow> real list \<Rightarrow> real list \<Rightarrow> real list \<Rightarrow> real list \<Rightarrow> real" where
  "arimaDiffPrediction p q ar ma lastPredictions lastErrors =
     arFuture p ar lastPredictions + maFutureComponent q ma lastErrors"

definition arimaFinalPrediction ::
  "nat \<Rightarrow> nat \<Rightarrow> nat \<Rightarrow> real list \<Rightarrow> real list \<Rightarrow> real list
    \<Rightarrow> nat \<times> real list \<times> real list \<times> real list \<Rightarrow> real"
where
  "arimaFinalPrediction p d q ar ma lastActuals s =
     (case s of (i, lastPredictions, lastErrors, undiffPredictions) \<Rightarrow>
        toFixed2 (undiffFuture d i undiffPredictions lastActuals
          (arimaDiffPrediction p q ar ma lastPredictions lastErrors)))"

definition arimaNext ::
  "nat \<Rightarrow> nat \<Rightarrow> nat \<Rightarrow> real list \<Rightarrow> real list \<Rightarrow> real list
    \<Rightarrow> nat \<times> real list \<times> real list \<times> real list \<Rightarrow> nat \<times> real list \<times> real list \<times> real list"
where
  "arimaNext p d q ar ma lastActuals s =
     (case s of (i, lastPredictions, lastErrors, undiffPredictions) \<Rightarrow>
        (i + 1,
         tl lastPredictions @ [arimaDiffPrediction p q ar ma lastPredictions lastErrors],
         tl lastErrors @ [0],
         undiffPredictions @ [arimaFinalPrediction p d q ar ma lastActuals s]))"

definition arimaForecastEntry :: "int \<Rightarrow> isodate list \<Rightarrow> real \<Rightarrow> nat \<Rightarrow> PredictionResult" where
  "arimaForecastEntry tz dates v i =
     \<lparr>date = getNextBusinessDay tz (dates ! (length dates - 1)) (i + 1), actual = None,
      predicted = v, modelName = ARIMA\<rparr>"

lemma arimaFuture_step:
  "i < fd \<Longrightarrow> arimaFuture tz ds p d q ar ma las fd i lp le ups rs =
     (case arimaNext p d q ar ma las (i, lp, le, ups) of (i', lp', le', ups') \<Rightarrow>
        arimaFuture tz ds p d q ar ma las fd (i + 1) lp' le' ups'
          (rs @ [arimaForecastEntry tz ds
                   (arimaFinalPrediction p d q ar ma las (i, lp, le, ups)) i]))"
  by (subst arimaFuture.simps)
    (simp add: arimaNext_def arimaFinalPrediction_def arimaDiffPrediction_def
      arimaForecastEntry_def)

lemma arimaFuture_done:
  "\<not> i < fd \<Longrightarrow> arimaFuture tz ds p d q ar ma las fd i lp le ups rs = rs"
  by (subst arimaFuture.simps) simp

lemma arimaFuture_eq:
  "arimaFuture tz ds p d q ar ma las fd i lp le ups rs =
     rs @ map (\<lambda>k. arimaForecastEntry tz ds
                 (arimaFinalPrediction p d q ar ma las
                    ((arimaNext p d q ar ma las ^^ (k - i)) (i, lp, le, ups))) k) [i..<fd]"
proof (induction "fd - i" arbitrary: i lp le ups rs)
  case 0
  then show ?case by (simp add: arimaFuture_done)
next
  case (Suc n)
  then have less: "i < fd" and n: "n = fd - (i + 1)"
    by simp_all
  have upt: "[i..<fd] = i # [i + 1..<fd]"
    using less by (simp add: upt_conv_Cons)
  obtain lp' le' ups' where nxt: "arimaNext p d q ar ma las (i, lp, le, ups) = (i + 1, lp', le', ups')"
    by (simp add: arimaNext_def)
  have shift: "(arimaNext p d q ar ma las ^^ (k - (i + 1))) (i + 1, lp', le', ups') =
      (arimaNext p d q ar ma las ^^ (k - i)) (i, lp, le, ups)"
    if "k \<in> set [i + 1..<fd]" for k
  proof -
    from that have "k - i = Suc (k - (i + 1))" by auto
    then show ?thesis by (simp add: funpow_swap1 nxt)
  qed
  have "arimaFuture tz ds p d q ar ma las fd i lp le ups rs =
      (rs @ [arimaForecastEntry tz ds (arimaFinalPrediction p d q ar ma las (i, lp, le, ups)) i]) @
      map (\<lambda>k. arimaForecastEntry tz ds
                 (arimaFinalPrediction p d q ar ma las
                    ((arimaNext p d q ar ma las ^^ (k - (i + 1))) (i + 1, lp', le', ups'))) k)
        [i + 1..<fd]"
    unfolding arimaFuture_step[OF less] nxt using Suc.hyps(1)[OF n] by simp
  also have "\<dots> = rs @ map (\<lambda>k. arimaForecastEntry tz ds
                 (arimaFinalPrediction p d q ar ma las
                    ((arimaNext p d q ar ma las ^^ (k - i)) (i, lp, le, ups))) k) [i..<fd]"
    unfolding upt using shift by (simp cong: map_cong)
  finally show ?case .
qed


text \<open>The residuals and predictions the backtest ends with, for a series of closes.\<close>

definition arimaFitted :: "nat \<Rightarrow> nat \<Rightarrow> nat \<Rightarrow> real list \<Rightarrow> real list \<times> real list" where
  "arimaFitted p d q closePrices =
     arimaBacktest p q ((diffOnce ^^ d) closePrices)
       (replicate p (1 / real p)) (replicate q (1 / real q))
       (length closePrices - d - max p q)"

lemma length_arimaFitted:
  "length (fst (arimaFitted p d q cs)) = length cs - d - max p q"
  "length (snd (arimaFitted p d q cs)) = length cs - d - max p q"
  by (simp_all add: arimaFitted_def length_arimaBacktest)

lemma arimaPredict_eq:
  assumes "max p q + d + 1 \<le> length data"
  shows "arimaPredict tz data p d q forecastDays =
    Inr (map (arimaBacktestEntry p d q (map close data) (map StockDataPoint.date data)
                (snd (arimaFitted p d q (map close data))))
           [0..<length data - d - max p q]
         @ map (\<lambda>k. arimaForecastEntry tz (map StockDataPoint.date data)
                  (arimaFinalPrediction p d q (replicate p (1 / real p)) (replicate q (1 / real q))
                     (sliceLast (map close data) d)
                     ((arimaNext p d q (replicate p (1 / real p)) (replicate q (1 / real q))
                         (sliceLast (map close data) d) ^^ k)
                        (0, sliceLast (snd (arimaFitted p d q (map close data))) p,
                         sliceLast (fst (arimaFitted p d q (map close data))) q,
                         map (\<lambda>k. undiffHistorical d (map close data) (k + max p q + d)
                                    (snd (arimaFitted p d q (map close data)) ! k))
                           [0..<length data - d - max p q]))) k)
             [0..<forecastDays])"
proof -
  let ?cs = "map close data" and ?ds = "map StockDataPoint.date data"
  let ?diff = "(diffOnce ^^ d) ?cs"
  let ?ar = "replicate p (1 / real p)" and ?ma = "replicate q (1 / real q)"
  have "max p q + 0 \<le> length ?diff"
    using assms by (auto simp: length_differencing)
  from arimaHistorical_eq[OF this, of ?ar ?ma]
  have hist: "arimaHistorical p q ?diff ?ar ?ma (max p q) [] [] = arimaFitted p d q ?cs"
    by (simp add: arimaFitted_def length_differencing)
  obtain es ps where fit: "arimaFitted p d q ?cs = (es, ps)"
    by (cases "arimaFitted p d q ?cs")
  have len: "length ps = length data - d - max p q"
    using length_arimaFitted(2)[of p d q ?cs] by (simp add: fit)
  have "\<not> length data < max p q + d + 1"
    using assms by simp
  then show ?thesis
    unfolding arimaPredict_def Let_def hist fit
    by (simp only: if_False prod.case arimaUndiff_eq arimaFuture_eq len fst_conv snd_conv
        append_Nil length_map minus_nat.diff_0)
qed

section \<open>Sample data\<close>

text \<open>
  A sample series: seven trading days from Monday 2024-01-01 (day 19723) to Tuesday
  2024-01-09 (day 19731).
\<close>

definition point :: "isodate \<Rightarrow> real \<Rightarrow> StockDataPoint" where
  "point d c =
     \<lparr>StockDataPoint.date = d, symbol = ''AAPL'', open = c, high = c, low = c, close = c,
      volume = 1000000\<rparr>"

definition sampleSeries :: "StockDataPoint list" where
  "sampleSeries =
     [point 19723 100, point 19724 102, point 19725 101, point 19726 105, point 19727 107,
      point 19730 106, point 19731 110]"

section \<open>The shape of a forecaster's result\<close>



lemma filter_actual_append:
  assumes "\<forall>r \<in> set past. actual r \<noteq> None" and "\<forall>r \<in> set future. actual r = None"
  shows "filter (\<lambda>r. actual r \<noteq> None) (past @ future) = past"
    and "filter (\<lambda>r. actual r = None) (past @ future) = future"
  using assms by (auto simp: filter_empty_conv filter_id_conv)


lemma last_date_nth:
  "data \<noteq> [] \<Longrightarrow>
   map StockDataPoint.date data ! (length (map StockDataPoint.date data) - 1)
     = StockDataPoint.date (last data)"
  by (simp add: last_conv_nth)







section \<open>Errors, lengths and the split\<close>

text \<open>
  C2, amended. Each forecaster ends with \<^verbatim>\<open>InsufficientDataError\<close> if and only if the series
  is shorter than its minimum length (\<open>windowSize\<close>, 2, \<open>max(p,q)+d+1\<close>); an error result
  carries no prediction; exponential smoothing and ARIMA return a result for every series
  that meets the minimum, and the moving average does so when moreover the series is not
  empty or no forecast is asked for.
\<close>

theorem forecasters_insufficient_data:
  "(movingAveragePredict tz data windowSize forecastDays = Inl InsufficientDataError
      \<longleftrightarrow> length data < windowSize)
   \<and> (\<not> length data < windowSize \<and> (data \<noteq> [] \<or> forecastDays = 0)
        \<longrightarrow> (\<exists>rs. movingAveragePredict tz data windowSize forecastDays = Inr rs))
   \<and> (exponentialSmoothingPredict tz data alpha forecastDays = Inl InsufficientDataError
        \<longleftrightarrow> length data < 2)
   \<and> (\<not> length data < 2
        \<longrightarrow> (\<exists>rs. exponentialSmoothingPredict tz data alpha forecastDays = Inr rs))
   \<and> (arimaPredict tz data p d q forecastDays = Inl InsufficientDataError
        \<longleftrightarrow> length data < max p q + d + 1)
   \<and> (\<not> length data < max p q + d + 1
        \<longrightarrow> (\<exists>rs. arimaPredict tz data p d q forecastDays = Inr rs))"
proof (intro conjI impI)
  show "movingAveragePredict tz data windowSize forecastDays = Inl InsufficientDataError
      \<longleftrightarrow> length data < windowSize"
    by (simp add: movingAveragePredict_def Let_def)
next
  assume "\<not> length data < windowSize \<and> (data \<noteq> [] \<or> forecastDays = 0)"
  then show "\<exists>rs. movingAveragePredict tz data windowSize forecastDays = Inr rs"
    by (simp add: movingAveragePredict_eq)
next
  show "exponentialSmoothingPredict tz data alpha forecastDays = Inl InsufficientDataError
      \<longleftrightarrow> length data < 2"
    by (simp add: exponentialSmoothingPredict_def Let_def split: prod.split)
next
  assume "\<not> length data < 2"
  then show "\<exists>rs. exponentialSmoothingPredict tz data alpha forecastDays = Inr rs"
    by (simp add: exponentialSmoothingPredict_eq)
next
  show "arimaPredict tz data p d q forecastDays = Inl InsufficientDataError
      \<longleftrightarrow> length data < max p q + d + 1"
    by (simp add: arimaPredict_def Let_def split: prod.split)
next
  assume "\<not> length data < max p q + d + 1"
  then show "\<exists>rs. arimaPredict tz data p d q forecastDays = Inr rs"
    by (simp add: arimaPredict_eq)
qed

theorem forecasters_insufficient_data_witness:
  "length sampleSeries = 7
   \<and> (\<exists>rs. movingAveragePredict 0 sampleSeries 5 7 = Inr rs)
   \<and> (\<exists>rs. exponentialSmoothingPredict 0 sampleSeries (3 / 10) 7 = Inr rs)
   \<and> (\<exists>rs. arimaPredict 0 sampleSeries 3 1 1 7 = Inr rs)
   \<and> movingAveragePredict 0 (take 4 sampleSeries) 5 7 = Inl InsufficientDataError
   \<and> exponentialSmoothingPredict 0 (take 1 sampleSeries) (3 / 10) 7 = Inl InsufficientDataError
   \<and> arimaPredict 0 (take 4 sampleSeries) 3 1 1 7 = Inl InsufficientDataError"
proof -
  have len: "length sampleSeries = 7" "sampleSeries \<noteq> []"
    by (simp_all add: sampleSeries_def)
  show ?thesis
    using forecasters_insufficient_data[of 0 sampleSeries 5 7 "3 / 10" 3 1 1]
      forecasters_insufficient_data[of 0 "take 4 sampleSeries" 5 7 "3 / 10" 3 1 1]
      forecasters_insufficient_data[of 0 "take 1 sampleSeries" 5 7 "3 / 10" 3 1 1]
    by (simp add: len)
qed

text \<open>
  The claim as stated fails for the moving average on the empty series with
  \<open>windowSize = 0\<close>: the series is not shorter than the window, and the call ends with the
  \<^verbatim>\<open>RangeError\<close> of \<^verbatim>\<open>toISOString\<close>.
\<close>

theorem movingAveragePredict_empty_series_counterexample:
  "\<not> length ([] :: StockDataPoint list) < 0
   \<and> movingAveragePredict 0 [] 0 7 = Inl InvalidTimeValue"
  by (simp add: movingAveragePredict_def Let_def)

text \<open>
  C4, amended. For every series meeting a model's precondition (for the moving average:
  a series that is not empty, or no forecast asked for) the result has
  \<open>length - windowSize\<close>, \<open>length - 1\<close> and \<open>length - (max(p,q)+d)\<close> entries with an actual
  value, for the moving average, exponential smoothing and ARIMA, and exactly
  \<open>forecastDays\<close> entries without one.
\<close>

theorem forecasters_result_lengths:
  "(windowSize \<le> length data \<and> (data \<noteq> [] \<or> forecastDays = 0) \<longrightarrow>
      (\<exists>rs. movingAveragePredict tz data windowSize forecastDays = Inr rs
         \<and> length (filter (\<lambda>r. actual r \<noteq> None) rs) = length data - windowSize
         \<and> length (filter (\<lambda>r. actual r = None) rs) = forecastDays))
   \<and> (2 \<le> length data \<longrightarrow>
      (\<exists>rs. exponentialSmoothingPredict tz data alpha forecastDays = Inr rs
         \<and> length (filter (\<lambda>r. actual r \<noteq> None) rs) = length data - 1
         \<and> length (filter (\<lambda>r. actual r = None) rs) = forecastDays))
   \<and> (max p q + d + 1 \<le> length data \<longrightarrow>
      (\<exists>rs. arimaPredict tz data p d q forecastDays = Inr rs
         \<and> length (filter (\<lambda>r. actual r \<noteq> None) rs) = length data - (max p q + d)
         \<and> length (filter (\<lambda>r. actual r = None) rs) = forecastDays))"
proof (intro conjI impI)
  assume a: "windowSize \<le> length data \<and> (data \<noteq> [] \<or> forecastDays = 0)"
  let ?past = "map (maBacktestEntry (map close data) (map StockDataPoint.date data) windowSize)
           [windowSize..<length data]"
  let ?future = "map (\<lambda>k. maForecastEntry tz (map StockDataPoint.date data)
                  ((maSlide ^^ k) (sliceLast (map close data) windowSize)) k) [0..<forecastDays]"
  have "\<forall>r \<in> set ?past. actual r \<noteq> None" "\<forall>r \<in> set ?future. actual r = None"
    by (auto simp: maBacktestEntry_def maForecastEntry_def)
  from filter_actual_append[OF this] a
  show "\<exists>rs. movingAveragePredict tz data windowSize forecastDays = Inr rs
         \<and> length (filter (\<lambda>r. actual r \<noteq> None) rs) = length data - windowSize
         \<and> length (filter (\<lambda>r. actual r = None) rs) = forecastDays"
    by (simp add: movingAveragePredict_eq)
next
  assume a: "2 \<le> length data"
  let ?past = "map (esBacktestEntry alpha (map close data) (map StockDataPoint.date data))
           [1..<length data]"
  let ?future = "map (\<lambda>k. esForecastEntry tz (map StockDataPoint.date data)
                  ((esNext alpha ^^ (k + 1))
                     (map close data ! (length data - 1),
                      smoothed alpha (map close data) (length data - 1))) k)
             [0..<forecastDays]"
  have "\<forall>r \<in> set ?past. actual r \<noteq> None" "\<forall>r \<in> set ?future. actual r = None"
    by (auto simp: esBacktestEntry_def esForecastEntry_def)
  from filter_actual_append[OF this] a
  show "\<exists>rs. exponentialSmoothingPredict tz data alpha forecastDays = Inr rs
         \<and> length (filter (\<lambda>r. actual r \<noteq> None) rs) = length data - 1
         \<and> length (filter (\<lambda>r. actual r = None) rs) = forecastDays"
    by (simp add: exponentialSmoothingPredict_eq)
next
  assume a: "max p q + d + 1 \<le> length data"
  let ?cs = "map close data"
  let ?ar = "replicate p (1 / real p)" and ?ma = "replicate q (1 / real q)"
  let ?past = "map (arimaBacktestEntry p d q ?cs (map StockDataPoint.date data)
                (snd (arimaFitted p d q ?cs))) [0..<length data - d - max p q]"
  let ?future = "map (\<lambda>k. arimaForecastEntry tz (map StockDataPoint.date data)
                  (arimaFinalPrediction p d q ?ar ?ma (sliceLast ?cs d)
                     ((arimaNext p d q ?ar ?ma (sliceLast ?cs d) ^^ k)
                        (0, sliceLast (snd (arimaFitted p d q ?cs)) p,
                         sliceLast (fst (arimaFitted p d q ?cs)) q,
                         map (\<lambda>k. undiffHistorical d ?cs (k + max p q + d)
                                    (snd (arimaFitted p d q ?cs) ! k))
                           [0..<length data - d - max p q]))) k)
             [0..<forecastDays]"
  have "\<forall>r \<in> set ?past. actual r \<noteq> None" "\<forall>r \<in> set ?future. actual r = None"
    by (auto simp: arimaBacktestEntry_def arimaForecastEntry_def)
  from filter_actual_append[OF this]
  have "length (filter (\<lambda>r. actual r \<noteq> None) (?past @ ?future)) = length data - (max p q + d)"
    "length (filter (\<lambda>r. actual r = None) (?past @ ?future)) = forecastDays"
    by (simp_all add: add.commute)
  then show "\<exists>rs. arimaPredict tz data p d q forecastDays = Inr rs
         \<and> length (filter (\<lambda>r. actual r \<noteq> None) rs) = length data - (max p q + d)
         \<and> length (filter (\<lambda>r. actual r = None) rs) = forecastDays"
    unfolding arimaPredict_eq[OF a] by blast
qed

theorem forecasters_result_lengths_witness:
  "length sampleSeries = 7
   \<and> (\<exists>rs. movingAveragePredict 0 sampleSeries 5 7 = Inr rs
         \<and> length (filter (\<lambda>r. actual r \<noteq> None) rs) = 2
         \<and> length (filter (\<lambda>r. actual r = None) rs) = 7)
   \<and> (\<exists>rs. exponentialSmoothingPredict 0 sampleSeries (3 / 10) 7 = Inr rs
         \<and> length (filter (\<lambda>r. actual r \<noteq> None) rs) = 6
         \<and> length (filter (\<lambda>r. actual r = None) rs) = 7)
   \<and> (\<exists>rs. arimaPredict 0 sampleSeries 3 1 1 7 = Inr rs
         \<and> length (filter (\<lambda>r. actual r \<noteq> None) rs) = 3
         \<and> length (filter (\<lambda>r. actual r = None) rs) = 7)"
proof -
  have len: "length sampleSeries = 7" "sampleSeries \<noteq> []"
    by (simp_all add: sampleSeries_def)
  show ?thesis
    using forecasters_result_lengths[of 5 sampleSeries 7 0 "3 / 10" 3 1 1]
    by (simp add: len)
qed

text \<open>
  The claim as stated fails on the empty series with \<open>windowSize = 0\<close> and one forecast
  day: the precondition holds and there is no result whose entries could be counted.
\<close>

theorem movingAveragePredict_no_forecast_counterexample:
  "(0 :: nat) \<le> length ([] :: StockDataPoint list)
   \<and> movingAveragePredict 0 [] 0 1 = Inl InvalidTimeValue"
  by (simp add: movingAveragePredict_def Let_def)



section \<open>Moving-average forecasts\<close>










section \<open>Exponential-smoothing backtest\<close>







section \<open>Mean absolute error\<close>




















section \<open>ARIMA backtest\<close>


definition arimaPrediction :: "nat \<Rightarrow> nat \<Rightarrow> real list \<Rightarrow> nat \<Rightarrow> real list \<Rightarrow> real" where
  "arimaPrediction p q diff i residuals =
     (1 / real p) * sum_list (take p (drop (max p q + i - p) diff))
     + (1 / real q) * sum_list (take q (rev residuals))"

fun arimaResiduals :: "nat \<Rightarrow> nat \<Rightarrow> real list \<Rightarrow> nat \<Rightarrow> real list" where
  "arimaResiduals p q diff 0 = []"
| "arimaResiduals p q diff (Suc i) =
     arimaResiduals p q diff i
       @ [diff ! (max p q + i) - arimaPrediction p q diff i (arimaResiduals p q diff i)]"

lemma length_arimaResiduals: "length (arimaResiduals p q diff i) = i"
  by (induction i) simp_all











section \<open>Dates of the forecast entries\<close>

text \<open>
  In every time zone, each forecaster dates its \<open>k\<close>-th forecast entry (\<open>k\<close> from 1) with
  \<^verbatim>\<open>getNextBusinessDay\<close> of the last input date and \<open>k\<close>.
\<close>

lemma forecast_dates_append:
  assumes "\<forall>r \<in> set past. actual r \<noteq> None"
    and "\<forall>r \<in> set future. actual r = None"
  shows "map PredictionResult.date (filter (\<lambda>r. actual r = None) (past @ future))
    = map PredictionResult.date future"
  using filter_actual_append(2)[OF assms] by simp

lemma movingAverage_forecast_dates:
  assumes "windowSize \<le> length data" and "data \<noteq> []"
  shows "\<exists>rs. movingAveragePredict tz data windowSize forecastDays = Inr rs
    \<and> map PredictionResult.date (filter (\<lambda>r. actual r = None) rs)
        = map (\<lambda>k. getNextBusinessDay tz (StockDataPoint.date (last data)) (k + 1))
            [0..<forecastDays]"
proof -
  let ?past = "map (maBacktestEntry (map close data) (map StockDataPoint.date data) windowSize)
           [windowSize..<length data]"
  let ?future = "map (\<lambda>k. maForecastEntry tz (map StockDataPoint.date data)
                  ((maSlide ^^ k) (sliceLast (map close data) windowSize)) k) [0..<forecastDays]"
  have "\<forall>r \<in> set ?past. actual r \<noteq> None" "\<forall>r \<in> set ?future. actual r = None"
    by (auto simp: maBacktestEntry_def maForecastEntry_def)
  from forecast_dates_append[OF this]
  have "map PredictionResult.date (filter (\<lambda>r. actual r = None) (?past @ ?future))
      = map (\<lambda>k. getNextBusinessDay tz (StockDataPoint.date (last data)) (k + 1))
          [0..<forecastDays]"
    using assms(2) by (simp add: maForecastEntry_def last_conv_nth)
  then show ?thesis
    unfolding movingAveragePredict_eq[OF assms(1) disjI1[OF assms(2)]] by blast
qed

lemma exponentialSmoothing_forecast_dates:
  assumes "2 \<le> length data"
  shows "\<exists>rs. exponentialSmoothingPredict tz data alpha forecastDays = Inr rs
    \<and> map PredictionResult.date (filter (\<lambda>r. actual r = None) rs)
        = map (\<lambda>k. getNextBusinessDay tz (StockDataPoint.date (last data)) (k + 1))
            [0..<forecastDays]"
proof -
  let ?past = "map (esBacktestEntry alpha (map close data) (map StockDataPoint.date data))
           [1..<length data]"
  let ?future = "map (\<lambda>k. esForecastEntry tz (map StockDataPoint.date data)
                  ((esNext alpha ^^ (k + 1))
                     (map close data ! (length data - 1),
                      smoothed alpha (map close data) (length data - 1))) k)
             [0..<forecastDays]"
  from assms have ne: "data \<noteq> []"
    by auto
  have "\<forall>r \<in> set ?past. actual r \<noteq> None" "\<forall>r \<in> set ?future. actual r = None"
    by (auto simp: esBacktestEntry_def esForecastEntry_def)
  from forecast_dates_append[OF this]
  have "map PredictionResult.date (filter (\<lambda>r. actual r = None) (?past @ ?future))
      = map (\<lambda>k. getNextBusinessDay tz (StockDataPoint.date (last data)) (k + 1))
          [0..<forecastDays]"
    using ne by (simp add: esForecastEntry_def last_conv_nth)
  then show ?thesis
    unfolding exponentialSmoothingPredict_eq[OF assms] by blast
qed

lemma arima_forecast_dates:
  assumes "max p q + d + 1 \<le> length data"
  shows "\<exists>rs. arimaPredict tz data p d q forecastDays = Inr rs
    \<and> map PredictionResult.date (filter (\<lambda>r. actual r = None) rs)
        = map (\<lambda>k. getNextBusinessDay tz (StockDataPoint.date (last data)) (k + 1))
            [0..<forecastDays]"
proof -
  let ?cs = "map close data"
  let ?ar = "replicate p (1 / real p)" and ?ma = "replicate q (1 / real q)"
  let ?past = "map (arimaBacktestEntry p d q ?cs (map StockDataPoint.date data)
                (snd (arimaFitted p d q ?cs))) [0..<length data - d - max p q]"
  let ?f = "\<lambda>k. arimaFinalPrediction p d q ?ar ?ma (sliceLast ?cs d)
                     ((arimaNext p d q ?ar ?ma (sliceLast ?cs d) ^^ k)
                        (0, sliceLast (snd (arimaFitted p d q ?cs)) p,
                         sliceLast (fst (arimaFitted p d q ?cs)) q,
                         map (\<lambda>k. undiffHistorical d ?cs (k + max p q + d)
                                    (snd (arimaFitted p d q ?cs) ! k))
                           [0..<length data - d - max p q]))"
  let ?future = "map (\<lambda>k. arimaForecastEntry tz (map StockDataPoint.date data) (?f k) k)
             [0..<forecastDays]"
  from assms have ne: "data \<noteq> []"
    by auto
  have "\<forall>r \<in> set ?past. actual r \<noteq> None" "\<forall>r \<in> set ?future. actual r = None"
    by (auto simp: arimaBacktestEntry_def arimaForecastEntry_def)
  from forecast_dates_append[OF this]
  have "map PredictionResult.date (filter (\<lambda>r. actual r = None) (?past @ ?future))
      = map (\<lambda>k. getNextBusinessDay tz (StockDataPoint.date (last data)) (k + 1))
          [0..<forecastDays]"
    using ne by (simp add: arimaForecastEntry_def last_conv_nth)
  then show ?thesis
    unfolding arimaPredict_eq[OF assms] by blast
qed

definition forecastDates :: "int \<Rightarrow> isodate \<Rightarrow> nat \<Rightarrow> isodate list" where
  "forecastDates tz lastDate forecastDays =
     map (\<lambda>k. getNextBusinessDay tz lastDate (k + 1)) [0..<forecastDays]"

lemma forecastDates_increasing: "sorted_wrt (<) (forecastDates tz lastDate forecastDays)"
  by (simp add: forecastDates_def sorted_wrt_iff_nth_less getNextBusinessDay_strict_mono)

lemma forecastDates_east:
  assumes "0 \<le> tz" and "tz < 1440" and "k < forecastDays"
  shows "isBusinessDay (forecastDates tz lastDate forecastDays ! k)
    \<and> businessDaysIn lastDate (forecastDates tz lastDate forecastDays ! k) = k + 1"
  using getNextBusinessDay_east[OF assms(1,2), of "k + 1" lastDate] assms(3)
  by (simp add: forecastDates_def)

text \<open>
  In a time zone at or east of UTC the claim C8 holds for each forecaster and every
  \<open>forecastDays\<close>: the forecast entries have strictly increasing dates, none on a Saturday
  or Sunday, and the \<open>k\<close>-th of them (\<open>k\<close> from 1) is dated the \<open>k\<close>-th business day after the
  last input date.
\<close>

lemma forecast_dates_at_or_east_of_utc:
  assumes "0 \<le> tz" and "tz < 1440" and "data \<noteq> []"
  shows "(windowSize \<le> length data \<longrightarrow>
      (\<exists>rs. movingAveragePredict tz data windowSize forecastDays = Inr rs
         \<and> map PredictionResult.date (filter (\<lambda>r. actual r = None) rs)
             = forecastDates tz (StockDataPoint.date (last data)) forecastDays))
   \<and> (2 \<le> length data \<longrightarrow>
      (\<exists>rs. exponentialSmoothingPredict tz data alpha forecastDays = Inr rs
         \<and> map PredictionResult.date (filter (\<lambda>r. actual r = None) rs)
             = forecastDates tz (StockDataPoint.date (last data)) forecastDays))
   \<and> (max p q + d + 1 \<le> length data \<longrightarrow>
      (\<exists>rs. arimaPredict tz data p d q forecastDays = Inr rs
         \<and> map PredictionResult.date (filter (\<lambda>r. actual r = None) rs)
             = forecastDates tz (StockDataPoint.date (last data)) forecastDays))
   \<and> length (forecastDates tz (StockDataPoint.date (last data)) forecastDays) = forecastDays
   \<and> sorted_wrt (<) (forecastDates tz (StockDataPoint.date (last data)) forecastDays)
   \<and> (\<forall>k < forecastDays.
         isBusinessDay (forecastDates tz (StockDataPoint.date (last data)) forecastDays ! k)
         \<and> businessDaysIn (StockDataPoint.date (last data))
              (forecastDates tz (StockDataPoint.date (last data)) forecastDays ! k) = k + 1)"
  using movingAverage_forecast_dates[OF _ assms(3), of windowSize tz forecastDays]
    exponentialSmoothing_forecast_dates[of data tz alpha forecastDays]
    arima_forecast_dates[of p q d data tz forecastDays]
    forecastDates_increasing[of tz "StockDataPoint.date (last data)" forecastDays]
    forecastDates_east[OF assms(1,2), of _ forecastDays "StockDataPoint.date (last data)"]
  unfolding forecastDates_def[symmetric]
  by (simp add: forecastDates_def[of tz "StockDataPoint.date (last data)" forecastDays, THEN arg_cong[where f = length]])

lemma getNextBusinessDay_west:
  "map (getNextBusinessDay (- 300) 19731) [1, 2, 3, 4, 5, 6, 7]
     = [19732, 19733, 19734, 19735, 19738, 19739, 19740]"
  by (simp add: getNextBusinessDay_def businessLoop.simps getDay_def newDate_def msPerDay_def
      toISODate_def)

lemma getNextBusinessDay_utc:
  "map (getNextBusinessDay 0 19731) [1, 2, 3, 4, 5, 6, 7]
     = [19732, 19733, 19734, 19737, 19738, 19739, 19740]"
  by (simp add: getNextBusinessDay_def businessLoop.simps getDay_def newDate_def msPerDay_def
      toISODate_def)

text \<open>
  C8 fails on the code in a time zone west of UTC. The series ends on Tuesday 2024-01-09
  (day 19731) and the host is five hours behind UTC. \<^verbatim>\<open>new Date('2024-01-09')\<close> is midnight
  UTC, which is Monday evening local time; \<^verbatim>\<open>getDay\<close> tests the local day and
  \<^verbatim>\<open>toISOString\<close> prints the UTC day, one later. The fourth forecast entry is dated
  Saturday 2024-01-13 (day 19735), and Monday 2024-01-15 (day 19737), the fourth business
  day after the last input date, is skipped. In UTC the same call dates it 19737.
\<close>

theorem forecast_dates_west_of_utc:
  "map PredictionResult.date
     (filter (\<lambda>r. actual r = None) (projr (movingAveragePredict (- 300) sampleSeries 5 7)))
     = [19732, 19733, 19734, 19735, 19738, 19739, 19740]
   \<and> \<not> isBusinessDay 19735
   \<and> (19735 + 4) mod 7 = (6 :: int)
   \<and> map PredictionResult.date
       (filter (\<lambda>r. actual r = None) (projr (movingAveragePredict 0 sampleSeries 5 7)))
     = [19732, 19733, 19734, 19737, 19738, 19739, 19740]"
proof -
  have s: "5 \<le> length sampleSeries" "sampleSeries \<noteq> []"
      "StockDataPoint.date (last sampleSeries) = 19731"
    by (simp_all add: sampleSeries_def point_def)
  have upt: "[0..<7] = [0, 1, 2, 3, 4, 5, 6]"
    by (simp add: upt_rec)
  have dates: "map (\<lambda>k. getNextBusinessDay tz 19731 (k + 1)) [0..<7]
      = map (getNextBusinessDay tz 19731) [1, 2, 3, 4, 5, 6, 7]" for tz
    unfolding upt by (simp add: eval_nat_numeral)
  from movingAverage_forecast_dates[OF s(1,2), of "- 300" 7]
  have west: "map PredictionResult.date
     (filter (\<lambda>r. actual r = None) (projr (movingAveragePredict (- 300) sampleSeries 5 7)))
     = [19732, 19733, 19734, 19735, 19738, 19739, 19740]"
    unfolding s(3) dates getNextBusinessDay_west by auto
  from movingAverage_forecast_dates[OF s(1,2), of 0 7]
  have utc: "map PredictionResult.date
     (filter (\<lambda>r. actual r = None) (projr (movingAveragePredict 0 sampleSeries 5 7)))
     = [19732, 19733, 19734, 19737, 19738, 19739, 19740]"
    unfolding s(3) dates getNextBusinessDay_utc by auto
  from west utc show ?thesis
    by (simp add: isBusinessDay_def)
qed

section \<open>The forecasters on an explicit store\<close>

text \<open>
  For the frame claim the arrays and objects of the program live in a store: a list of
  cells, an address being an index into it. An array of numbers, of date strings or of
  object references is a cell; so is each element object of the input array and each
  result object. Allocation appends a cell; \<^verbatim>\<open>push\<close> and \<^verbatim>\<open>shift\<close> overwrite the cell of the
  array they are called on. \<^verbatim>\<open>map\<close>, \<^verbatim>\<open>slice\<close> and \<^verbatim>\<open>filter\<close> allocate the array they return.
\<close>

datatype cell =
    Point StockDataPoint
  | Result PredictionResult
  | Nums "real list"
  | Dates "isodate list"
  | Refs "nat list"
  | PredictionsObj "(ForecastingModel \<times> nat) list"
  | MetricsObj ModelMetrics
  | MetricsRecord "(ForecastingModel \<times> nat) list"
  | RecommendationObj ForecastingModel nat

type_synonym store = "cell list"

definition alloc :: "store \<Rightarrow> cell \<Rightarrow> store \<times> nat" where
  "alloc h c = (h @ [c], length h)"

definition nums :: "store \<Rightarrow> nat \<Rightarrow> real list" where
  "nums h a = (case h ! a of Nums xs \<Rightarrow> xs | _ \<Rightarrow> [])"

definition dates :: "store \<Rightarrow> nat \<Rightarrow> isodate list" where
  "dates h a = (case h ! a of Dates xs \<Rightarrow> xs | _ \<Rightarrow> [])"

definition refs :: "store \<Rightarrow> nat \<Rightarrow> nat list" where
  "refs h a = (case h ! a of Refs xs \<Rightarrow> xs | _ \<Rightarrow> [])"

definition closeOf :: "store \<Rightarrow> nat \<Rightarrow> real" where
  "closeOf h r = (case h ! r of Point p \<Rightarrow> close p | _ \<Rightarrow> 0)"

definition dateOf :: "store \<Rightarrow> nat \<Rightarrow> isodate" where
  "dateOf h r = (case h ! r of Point p \<Rightarrow> StockDataPoint.date p | _ \<Rightarrow> 0)"

definition actualOf :: "store \<Rightarrow> nat \<Rightarrow> real option" where
  "actualOf h r = (case h ! r of Result p \<Rightarrow> actual p | _ \<Rightarrow> None)"

definition predictedOf :: "store \<Rightarrow> nat \<Rightarrow> real" where
  "predictedOf h r = (case h ! r of Result p \<Rightarrow> predicted p | _ \<Rightarrow> 0)"

definition pushNum :: "store \<Rightarrow> nat \<Rightarrow> real \<Rightarrow> store" where
  "pushNum h a x = h[a := Nums (nums h a @ [x])]"

definition shiftNum :: "store \<Rightarrow> nat \<Rightarrow> store" where
  "shiftNum h a = h[a := Nums (tl (nums h a))]"

definition pushRef :: "store \<Rightarrow> nat \<Rightarrow> nat \<Rightarrow> store" where
  "pushRef h a r = h[a := Refs (refs h a @ [r])]"

subsection \<open>Moving average\<close>

text \<open>
  Lines 36-46. The loop reads \<^verbatim>\<open>data.length\<close> from the store in every round, so that it
  ends only as long as nothing it writes to is the input array.
\<close>

partial_function (option) maHistoricalS ::
  "store \<Rightarrow> nat \<Rightarrow> nat \<Rightarrow> nat \<Rightarrow> nat \<Rightarrow> nat \<Rightarrow> nat \<Rightarrow> store option"
where
  "maHistoricalS h data closePrices dts results windowSize i =
     (if i < length (refs h data) then
        (case alloc h (Nums (slice (nums h closePrices) (i - windowSize) i)) of
           (h1, window) \<Rightarrow>
        (case alloc h1
                (Result \<lparr>date = dates h1 dts ! i,
                         actual = Some (nums h1 closePrices ! i),
                         predicted = toFixed2 (average (nums h1 window)),
                         modelName = MOVING_AVERAGE\<rparr>) of
           (h2, entry) \<Rightarrow>
             maHistoricalS (pushRef h2 results entry) data closePrices dts results windowSize
               (i + 1)))
      else Some h)"

text \<open>Lines 51-66.\<close>

function maFutureS :: "int \<Rightarrow> store \<Rightarrow> nat \<Rightarrow> nat \<Rightarrow> nat \<Rightarrow> nat \<Rightarrow> nat \<Rightarrow> store" where
  "maFutureS tz h dts results lastPredictions forecastDays i =
     (if i < forecastDays then
        (case alloc h
                (Result \<lparr>date = getNextBusinessDay tz
                                  (dates h dts ! (length (dates h dts) - 1)) (i + 1),
                         actual = None,
                         predicted = toFixed2 (average (nums h lastPredictions)),
                         modelName = MOVING_AVERAGE\<rparr>) of
           (h1, entry) \<Rightarrow>
             maFutureS tz
               (pushNum (shiftNum (pushRef h1 results entry) lastPredictions) lastPredictions
                  (toFixed2 (average (nums h lastPredictions))))
               dts results lastPredictions forecastDays (i + 1))
      else h)"
  by pat_completeness auto
termination
  by (relation "measure (\<lambda>(tz, h, dts, results, lastPredictions, forecastDays, i).
        forecastDays - i)") auto

declare maFutureS.simps [simp del]

text \<open>
  Lines 22-69. The result is the store after the call and either the error thrown or the
  address of the array returned.
\<close>

definition movingAveragePredictS ::
  "int \<Rightarrow> store \<Rightarrow> nat \<Rightarrow> nat \<Rightarrow> nat \<Rightarrow> (store \<times> (error + nat)) option"
where
  "movingAveragePredictS tz h data windowSize forecastDays =
     (if length (refs h data) < windowSize then Some (h, Inl InsufficientDataError)
      else
        (case alloc h (Nums (map (closeOf h) (refs h data))) of (h1, closePrices) \<Rightarrow>
        (case alloc h1 (Dates (map (dateOf h1) (refs h1 data))) of (h2, dts) \<Rightarrow>
        (case alloc h2 (Refs []) of (h3, results) \<Rightarrow>
        (case maHistoricalS h3 data closePrices dts results windowSize windowSize of
           None \<Rightarrow> None
         | Some h4 \<Rightarrow>
        (case alloc h4 (Nums (sliceLast (nums h4 closePrices) windowSize)) of
           (h5, lastPredictions) \<Rightarrow>
             if dates h5 dts = [] \<and> 0 < forecastDays then Some (h5, Inl InvalidTimeValue)
             else Some (maFutureS tz h5 dts results lastPredictions forecastDays 0,
                        Inr results)))))))"


subsection \<open>Exponential smoothing\<close>

text \<open>Lines 92-102; the loop returns the final \<^verbatim>\<open>forecast\<close> with the store.\<close>

partial_function (option) esHistoricalS ::
  "store \<Rightarrow> nat \<Rightarrow> nat \<Rightarrow> nat \<Rightarrow> nat \<Rightarrow> real \<Rightarrow> nat \<Rightarrow> real \<Rightarrow> (store \<times> real) option"
where
  "esHistoricalS h data closePrices dts results alpha i forecast =
     (if i < length (refs h data) then
        (case alloc h
                (Result \<lparr>date = dates h dts ! i,
                         actual = Some (nums h closePrices ! i),
                         predicted =
                           toFixed2 (alpha * nums h closePrices ! (i - 1) + (1 - alpha) * forecast),
                         modelName = EXPONENTIAL_SMOOTHING\<rparr>) of
           (h1, entry) \<Rightarrow>
             esHistoricalS (pushRef h1 results entry) data closePrices dts results alpha (i + 1)
               (alpha * nums h closePrices ! (i - 1) + (1 - alpha) * forecast))
      else Some (h, forecast))"

text \<open>Lines 107-123.\<close>

function esFutureS ::
  "int \<Rightarrow> store \<Rightarrow> nat \<Rightarrow> nat \<Rightarrow> real \<Rightarrow> nat \<Rightarrow> nat \<Rightarrow> real \<Rightarrow> real \<Rightarrow> store"
where
  "esFutureS tz h dts results alpha forecastDays i lastActual forecast =
     (if i < forecastDays then
        (case alloc h
                (Result \<lparr>date = getNextBusinessDay tz
                                  (dates h dts ! (length (dates h dts) - 1)) (i + 1),
                         actual = None,
                         predicted = toFixed2 (alpha * lastActual + (1 - alpha) * forecast),
                         modelName = EXPONENTIAL_SMOOTHING\<rparr>) of
           (h1, entry) \<Rightarrow>
             esFutureS tz (pushRef h1 results entry) dts results alpha forecastDays (i + 1)
               (toFixed2 (alpha * lastActual + (1 - alpha) * forecast))
               (alpha * lastActual + (1 - alpha) * forecast))
      else h)"
  by pat_completeness auto
termination
  by (relation "measure (\<lambda>(tz, h, dts, results, alpha, forecastDays, i, lastActual, forecast).
        forecastDays - i)") auto

declare esFutureS.simps [simp del]

definition exponentialSmoothingPredictS ::
  "int \<Rightarrow> store \<Rightarrow> nat \<Rightarrow> real \<Rightarrow> nat \<Rightarrow> (store \<times> (error + nat)) option"
where
  "exponentialSmoothingPredictS tz h data alpha forecastDays =
     (if length (refs h data) < 2 then Some (h, Inl InsufficientDataError)
      else
        (case alloc h (Nums (map (closeOf h) (refs h data))) of (h1, closePrices) \<Rightarrow>
        (case alloc h1 (Dates (map (dateOf h1) (refs h1 data))) of (h2, dts) \<Rightarrow>
        (case alloc h2 (Refs []) of (h3, results) \<Rightarrow>
        (case esHistoricalS h3 data closePrices dts results alpha 1 (nums h3 closePrices ! 0) of
           None \<Rightarrow> None
         | Some (h4, forecast) \<Rightarrow>
             Some (esFutureS tz h4 dts results alpha forecastDays 0
                     (nums h4 closePrices ! (length (nums h4 closePrices) - 1)) forecast,
                   Inr results))))))"

subsection \<open>Simplified ARIMA\<close>

text \<open>
  Lines 149-152: each round allocates the array \<^verbatim>\<open>slice(1)\<close> returns and the array
  \<^verbatim>\<open>map\<close> returns, and the variable \<^verbatim>\<open>diffPrices\<close> then names the latter. With \<open>d = 0\<close> it
  keeps naming \<^verbatim>\<open>closePrices\<close>.
\<close>

fun differencingS :: "store \<Rightarrow> nat \<Rightarrow> nat \<Rightarrow> store \<times> nat" where
  "differencingS h diffPrices 0 = (h, diffPrices)"
| "differencingS h diffPrices (Suc n) =
     (case alloc h (Nums (drop 1 (nums h diffPrices))) of (h1, sliced) \<Rightarrow>
     (case alloc h1
             (Nums (map (\<lambda>idx. nums h1 sliced ! idx - nums h1 diffPrices ! idx)
                      [0..<length (nums h1 sliced)])) of
        (h2, mapped) \<Rightarrow> differencingS h2 mapped n))"

text \<open>Lines 163-182; the loop reads \<^verbatim>\<open>diffPrices.length\<close> in every round.\<close>

partial_function (option) arimaHistoricalS ::
  "store \<Rightarrow> nat \<Rightarrow> nat \<Rightarrow> nat \<Rightarrow> nat \<Rightarrow> nat \<Rightarrow> nat \<Rightarrow> nat \<Rightarrow> nat \<Rightarrow> store option"
where
  "arimaHistoricalS h p q diffPrices arCoefficients maCoefficients errors predictions i =
     (if i < length (nums h diffPrices) then
        arimaHistoricalS
          (pushNum
             (pushNum h predictions
                (arComponent p (nums h arCoefficients) (nums h diffPrices) i
                  + maComponent q (nums h maCoefficients) (nums h errors)))
             errors
             (nums h diffPrices ! i
               - (arComponent p (nums h arCoefficients) (nums h diffPrices) i
                   + maComponent q (nums h maCoefficients) (nums h errors))))
          p q diffPrices arCoefficients maCoefficients errors predictions (i + 1)
      else Some h)"

text \<open>Lines 188-206; the loop reads \<^verbatim>\<open>predictions.length\<close> in every round.\<close>

partial_function (option) arimaUndiffS ::
  "store \<Rightarrow> nat \<Rightarrow> nat \<Rightarrow> nat \<Rightarrow> nat \<Rightarrow> nat \<Rightarrow> nat \<Rightarrow> nat \<Rightarrow> nat \<Rightarrow> nat \<Rightarrow> store option"
where
  "arimaUndiffS h p d q closePrices dts predictions undiffPredictions results i =
     (if i < length (nums h predictions) then
        (case alloc
                (pushNum h undiffPredictions
                   (undiffHistorical d (nums h closePrices) (i + max p q + d)
                      (nums h predictions ! i)))
                (Result \<lparr>date = dates h dts ! (i + max p q + d),
                         actual = Some (nums h closePrices ! (i + max p q + d)),
                         predicted =
                           toFixed2 (undiffHistorical d (nums h closePrices) (i + max p q + d)
                             (nums h predictions ! i)),
                         modelName = ARIMA\<rparr>) of
           (h1, entry) \<Rightarrow>
             arimaUndiffS (pushRef h1 results entry) p d q closePrices dts predictions
               undiffPredictions results (i + 1))
      else Some h)"

text \<open>Lines 213-258.\<close>

function arimaFutureS ::
  "int \<Rightarrow> store \<Rightarrow> nat \<Rightarrow> nat \<Rightarrow> nat \<Rightarrow> nat \<Rightarrow> nat \<Rightarrow> nat \<Rightarrow> nat \<Rightarrow> nat \<Rightarrow> nat \<Rightarrow> nat \<Rightarrow> nat
    \<Rightarrow> nat \<Rightarrow> nat \<Rightarrow> store"
where
  "arimaFutureS tz h p d q dts arCoefficients maCoefficients lastActuals lastPredictions
      lastErrors undiffPredictions results forecastDays i =
     (if i < forecastDays then
        (case alloc
                (pushNum h undiffPredictions
                   (toFixed2 (undiffFuture d i (nums h undiffPredictions) (nums h lastActuals)
                      (arFuture p (nums h arCoefficients) (nums h lastPredictions)
                        + maFutureComponent q (nums h maCoefficients) (nums h lastErrors)))))
                (Result \<lparr>date = getNextBusinessDay tz
                                  (dates h dts ! (length (dates h dts) - 1)) (i + 1),
                         actual = None,
                         predicted =
                           toFixed2 (undiffFuture d i (nums h undiffPredictions)
                             (nums h lastActuals)
                             (arFuture p (nums h arCoefficients) (nums h lastPredictions)
                               + maFutureComponent q (nums h maCoefficients)
                                   (nums h lastErrors))),
                         modelName = ARIMA\<rparr>) of
           (h1, entry) \<Rightarrow>
             arimaFutureS tz
               (pushNum
                  (shiftNum
                     (pushNum (shiftNum (pushRef h1 results entry) lastPredictions)
                        lastPredictions
                        (arFuture p (nums h arCoefficients) (nums h lastPredictions)
                          + maFutureComponent q (nums h maCoefficients) (nums h lastErrors)))
                     lastErrors)
                  lastErrors 0)
               p d q dts arCoefficients maCoefficients lastActuals lastPredictions lastErrors
               undiffPredictions results forecastDays (i + 1))
      else h)"
  by pat_completeness auto
termination
  by (relation "measure (\<lambda>(tz, h, p, d, q, dts, arCoefficients, maCoefficients, lastActuals,
        lastPredictions, lastErrors, undiffPredictions, results, forecastDays, i).
        forecastDays - i)") auto

declare arimaFutureS.simps [simp del]

text \<open>
  Lines 133-261. \<^verbatim>\<open>Array(p).fill(1/p)\<close> allocates one array and fills it; \<^verbatim>\<open>errors\<close>,
  \<^verbatim>\<open>predictions\<close> and \<^verbatim>\<open>undiffPredictions\<close> start as fresh empty arrays.
\<close>

definition arimaPredictS ::
  "int \<Rightarrow> store \<Rightarrow> nat \<Rightarrow> nat \<Rightarrow> nat \<Rightarrow> nat \<Rightarrow> nat \<Rightarrow> (store \<times> (error + nat)) option"
where
  "arimaPredictS tz h data p d q forecastDays =
     (if length (refs h data) < max p q + d + 1 then Some (h, Inl InsufficientDataError)
      else
        (case alloc h (Nums (map (closeOf h) (refs h data))) of (h1, closePrices) \<Rightarrow>
        (case alloc h1 (Dates (map (dateOf h1) (refs h1 data))) of (h2, dts) \<Rightarrow>
        (case alloc h2 (Refs []) of (h3, results) \<Rightarrow>
        (case differencingS h3 closePrices d of (h4, diffPrices) \<Rightarrow>
        (case alloc h4 (Nums (replicate p (1 / real p))) of (h5, arCoefficients) \<Rightarrow>
        (case alloc h5 (Nums (replicate q (1 / real q))) of (h6, maCoefficients) \<Rightarrow>
        (case alloc h6 (Nums []) of (h7, errors) \<Rightarrow>
        (case alloc h7 (Nums []) of (h8, predictions) \<Rightarrow>
        (case arimaHistoricalS h8 p q diffPrices arCoefficients maCoefficients errors predictions
                (max p q) of
           None \<Rightarrow> None
         | Some h9 \<Rightarrow>
        (case alloc h9 (Nums []) of (h10, undiffPredictions) \<Rightarrow>
        (case arimaUndiffS h10 p d q closePrices dts predictions undiffPredictions results 0 of
           None \<Rightarrow> None
         | Some h11 \<Rightarrow>
        (case alloc h11 (Nums (sliceLast (nums h11 predictions) p)) of
           (h12, lastPredictions) \<Rightarrow>
        (case alloc h12 (Nums (sliceLast (nums h12 errors) q)) of (h13, lastErrors) \<Rightarrow>
        (case alloc h13 (Nums (sliceLast (nums h13 closePrices) d)) of (h14, lastActuals) \<Rightarrow>
           Some (arimaFutureS tz h14 p d q dts arCoefficients maCoefficients lastActuals
                   lastPredictions lastErrors undiffPredictions results forecastDays 0,
                 Inr results))))))))))))))))"

subsection \<open>Metrics and selector\<close>

text \<open>Lines 283-293 and 296-307: \<^verbatim>\<open>filter\<close> allocates, \<^verbatim>\<open>reduce\<close> reads.\<close>

definition calculateMAES :: "store \<Rightarrow> nat \<Rightarrow> store \<times> real" where
  "calculateMAES h predictions =
     (case alloc h (Refs (filter (\<lambda>r. actualOf h r \<noteq> None) (refs h predictions))) of
        (h1, validPairs) \<Rightarrow>
          (h1,
           if length (refs h1 validPairs) = 0 then 0
           else toFixed2
             (foldl (\<lambda>acc r. acc + \<bar>the (actualOf h1 r) - predictedOf h1 r\<bar>) 0
                (refs h1 validPairs)
              / real (length (refs h1 validPairs)))))"

definition calculateMPES :: "store \<Rightarrow> nat \<Rightarrow> store \<times> real" where
  "calculateMPES h predictions =
     (case alloc h (Refs (filter (\<lambda>r. actualOf h r \<noteq> None) (refs h predictions))) of
        (h1, validPairs) \<Rightarrow>
          (h1,
           if length (refs h1 validPairs) = 0 then 0
           else toFixed2
             (foldl (\<lambda>acc r. acc + (predictedOf h1 r - the (actualOf h1 r))
                                      / the (actualOf h1 r) * 100) 0
                (refs h1 validPairs)
              / real (length (refs h1 validPairs)))))"

definition property :: "store \<Rightarrow> nat \<Rightarrow> ForecastingModel \<Rightarrow> nat" where
  "property h a m =
     (case h ! a of
        PredictionsObj ps \<Rightarrow> (case map_of ps m of Some r \<Rightarrow> r | None \<Rightarrow> 0)
      | _ \<Rightarrow> 0)"

text \<open>
  One entry of the \<^verbatim>\<open>metrics\<close> literal, lines 326-329: the two metrics of a model and the
  object that holds them.
\<close>

definition metricsEntryS :: "store \<Rightarrow> nat \<Rightarrow> ForecastingModel \<Rightarrow> store \<times> nat" where
  "metricsEntryS h predictions m =
     (case calculateMAES h (property h predictions m) of (h1, maeValue) \<Rightarrow>
     (case calculateMPES h1 (property h1 predictions m) of (h2, mpeValue) \<Rightarrow>
        alloc h2 (MetricsObj \<lparr>mae = maeValue, mpe = mpeValue\<rparr>)))"

definition maeAt :: "store \<Rightarrow> nat \<Rightarrow> real" where
  "maeAt h a = (case h ! a of MetricsObj m \<Rightarrow> mae m | _ \<Rightarrow> 0)"

definition entries :: "store \<Rightarrow> nat \<Rightarrow> (ForecastingModel \<times> nat) list" where
  "entries h a = (case h ! a of MetricsRecord es \<Rightarrow> es | _ \<Rightarrow> [])"

text \<open>Lines 322-351; the result is the store and the address of the object returned.\<close>

definition determineBestModelS :: "store \<Rightarrow> nat \<Rightarrow> store \<times> nat" where
  "determineBestModelS h predictions =
     (case metricsEntryS h predictions MOVING_AVERAGE of (h1, m1) \<Rightarrow>
     (case metricsEntryS h1 predictions EXPONENTIAL_SMOOTHING of (h2, m2) \<Rightarrow>
     (case metricsEntryS h2 predictions ARIMA of (h3, m3) \<Rightarrow>
     (case alloc h3 (MetricsRecord
             [(MOVING_AVERAGE, m1), (EXPONENTIAL_SMOOTHING, m2), (ARIMA, m3)]) of
        (h4, metricsObj) \<Rightarrow>
     (case foldl (\<lambda>(bestModel, lowestMAE) (model, m).
                    if maeAt h4 m < lowestMAE then (model, maeAt h4 m)
                    else (bestModel, lowestMAE))
             (MOVING_AVERAGE, maeAt h4 (the (map_of (entries h4 metricsObj) MOVING_AVERAGE)))
             (entries h4 metricsObj) of
        (best, lowest) \<Rightarrow> alloc h4 (RecommendationObj best metricsObj))))))"

section \<open>Frame: what a call can change in the store\<close>

text \<open>
  \<open>modifiesOnly W h h'\<close>: going from \<open>h\<close> to \<open>h'\<close> no cell of \<open>h\<close> is dropped, and every cell
  of \<open>h\<close> outside \<open>W\<close> is unchanged.
\<close>

definition modifiesOnly :: "nat set \<Rightarrow> store \<Rightarrow> store \<Rightarrow> bool" where
  "modifiesOnly W h h' = (length h \<le> length h' \<and> (\<forall>a < length h. a \<notin> W \<longrightarrow> h' ! a = h ! a))"

lemma modifiesOnly_refl: "modifiesOnly W h h"
  by (simp add: modifiesOnly_def)

lemma modifiesOnly_trans:
  "modifiesOnly W h h1 \<Longrightarrow> modifiesOnly W h1 h2 \<Longrightarrow> modifiesOnly W h h2"
  by (auto simp: modifiesOnly_def)

lemma modifiesOnly_mono: "modifiesOnly W h h' \<Longrightarrow> W \<subseteq> W' \<Longrightarrow> modifiesOnly W' h h'"
  by (auto simp: modifiesOnly_def)

lemma modifiesOnly_alloc: "alloc h c = (h', a) \<Longrightarrow> modifiesOnly W h h'"
  by (auto simp: modifiesOnly_def alloc_def nth_append)

lemma alloc_address: "alloc h c = (h', a) \<Longrightarrow> a = length h \<and> length h' = Suc (length h)"
  by (auto simp: alloc_def)

lemma modifiesOnly_update:
  assumes "a \<in> W"
  shows "modifiesOnly W h (h[a := c])"
  unfolding modifiesOnly_def
proof (intro conjI allI impI)
  show "length h \<le> length (h[a := c])"
    by simp
next
  fix b
  assume "b \<notin> W"
  with assms have "a \<noteq> b"
    by blast
  then show "h[a := c] ! b = h ! b"
    by simp
qed

lemma modifiesOnly_pushNum: "a \<in> W \<Longrightarrow> modifiesOnly W h (pushNum h a x)"
  by (simp add: pushNum_def modifiesOnly_update)

lemma modifiesOnly_shiftNum: "a \<in> W \<Longrightarrow> modifiesOnly W h (shiftNum h a)"
  by (simp add: shiftNum_def modifiesOnly_update)

lemma modifiesOnly_pushRef: "a \<in> W \<Longrightarrow> modifiesOnly W h (pushRef h a r)"
  by (simp add: pushRef_def modifiesOnly_update)

lemma modifiesOnly_append: "modifiesOnly W h (h @ cs)"
  by (auto simp: modifiesOnly_def nth_append)

text \<open>The same facts in the form in which a chain of writes is checked from the outside in.\<close>

lemma then_append: "modifiesOnly W h h1 \<Longrightarrow> modifiesOnly W h (h1 @ cs)"
  by (blast intro: modifiesOnly_trans modifiesOnly_append)

lemma then_pushNum: "modifiesOnly W h h1 \<Longrightarrow> a \<in> W \<Longrightarrow> modifiesOnly W h (pushNum h1 a x)"
  by (blast intro: modifiesOnly_trans modifiesOnly_pushNum)

lemma then_shiftNum: "modifiesOnly W h h1 \<Longrightarrow> a \<in> W \<Longrightarrow> modifiesOnly W h (shiftNum h1 a)"
  by (blast intro: modifiesOnly_trans modifiesOnly_shiftNum)

lemma then_pushRef: "modifiesOnly W h h1 \<Longrightarrow> a \<in> W \<Longrightarrow> modifiesOnly W h (pushRef h1 a r)"
  by (blast intro: modifiesOnly_trans modifiesOnly_pushRef)

lemmas writes = modifiesOnly_refl then_append then_pushNum then_shiftNum then_pushRef

lemma modifiesOnly_nth:
  "modifiesOnly W h h' \<Longrightarrow> a < length h \<Longrightarrow> a \<notin> W \<Longrightarrow> h' ! a = h ! a"
  by (simp add: modifiesOnly_def)

lemma modifiesOnly_length: "modifiesOnly W h h' \<Longrightarrow> length h \<le> length h'"
  by (simp add: modifiesOnly_def)

lemma modifiesOnly_refs:
  "modifiesOnly W h h' \<Longrightarrow> a < length h \<Longrightarrow> a \<notin> W \<Longrightarrow> refs h' a = refs h a"
  by (simp add: refs_def modifiesOnly_nth)

lemma modifiesOnly_nums:
  "modifiesOnly W h h' \<Longrightarrow> a < length h \<Longrightarrow> a \<notin> W \<Longrightarrow> nums h' a = nums h a"
  by (simp add: nums_def modifiesOnly_nth)

subsection \<open>Moving average\<close>

lemma maHistoricalS_round:
  "i < length (refs h data) \<Longrightarrow>
   \<exists>h3. maHistoricalS h data closePrices dts results windowSize i =
      maHistoricalS h3 data closePrices dts results windowSize (i + 1)
    \<and> modifiesOnly {results} h h3"
  by (subst maHistoricalS.simps, simp add: alloc_def, intro exI conjI, rule refl, intro writes,
      simp_all)

lemma maHistoricalS_frame:
  "data < length h \<Longrightarrow> data \<noteq> results \<Longrightarrow>
   \<exists>h'. maHistoricalS h data closePrices dts results windowSize i = Some h'
     \<and> modifiesOnly {results} h h'"
proof (induction "length (refs h data) - i" arbitrary: h i)
  case 0
  then have "\<not> i < length (refs h data)"
    by simp
  then have "maHistoricalS h data closePrices dts results windowSize i = Some h"
    by (subst maHistoricalS.simps) simp
  then show ?case
    by (simp add: modifiesOnly_refl)
next
  case (Suc n)
  then have less: "i < length (refs h data)"
    by simp
  from maHistoricalS_round[OF less] obtain h3 where
    h3: "maHistoricalS h data closePrices dts results windowSize i =
      maHistoricalS h3 data closePrices dts results windowSize (i + 1)"
      "modifiesOnly {results} h h3"
    by blast
  have same: "refs h3 data = refs h data"
    using modifiesOnly_refs[OF h3(2) Suc.prems(1)] Suc.prems(2) by simp
  have "data < length h3"
    using modifiesOnly_length[OF h3(2)] Suc.prems(1) by simp
  moreover have "n = length (refs h3 data) - (i + 1)"
    using Suc.hyps(2) same by simp
  ultimately obtain h' where
    "maHistoricalS h3 data closePrices dts results windowSize (i + 1) = Some h'"
    "modifiesOnly {results} h3 h'"
    using Suc.hyps(1)[of h3 "i + 1"] Suc.prems(2) by blast
  with h3 show ?case
    by (auto intro: modifiesOnly_trans)
qed

lemma maFutureS_round:
  "i < forecastDays \<Longrightarrow>
   \<exists>h4. maFutureS tz h dts results lastPredictions forecastDays i =
      maFutureS tz h4 dts results lastPredictions forecastDays (i + 1)
    \<and> modifiesOnly {results, lastPredictions} h h4"
  by (subst maFutureS.simps, simp add: alloc_def, intro exI conjI, rule refl, intro writes,
      simp_all)

lemma maFutureS_frame:
  "modifiesOnly {results, lastPredictions} h
     (maFutureS tz h dts results lastPredictions forecastDays i)"
proof (induction "forecastDays - i" arbitrary: h i)
  case 0
  then show ?case
    by (subst maFutureS.simps) (simp add: modifiesOnly_refl)
next
  case (Suc n)
  then have less: "i < forecastDays" and n: "n = forecastDays - (i + 1)"
    by simp_all
  from maFutureS_round[OF less] obtain h4 where
    h4: "maFutureS tz h dts results lastPredictions forecastDays i =
      maFutureS tz h4 dts results lastPredictions forecastDays (i + 1)"
      "modifiesOnly {results, lastPredictions} h h4"
    by blast
  from h4(2) Suc.hyps(1)[OF n, of h4] show ?case
    unfolding h4(1) by (rule modifiesOnly_trans)
qed

text \<open>
  The cells a forecaster writes to are cells it has allocated: with respect to the store
  of the call they are fresh.
\<close>

definition fresh :: "store \<Rightarrow> nat set" where
  "fresh h = {a. length h \<le> a}"

lemma modifiesOnly_fresh:
  "modifiesOnly (fresh h) h h' \<longleftrightarrow> length h \<le> length h' \<and> (\<forall>a < length h. h' ! a = h ! a)"
  by (auto simp: modifiesOnly_def fresh_def)

lemma then_modifies:
  "modifiesOnly (fresh h0) h0 h \<Longrightarrow> modifiesOnly W h h' \<Longrightarrow> W \<subseteq> fresh h0
   \<Longrightarrow> modifiesOnly (fresh h0) h0 h'"
  by (blast intro: modifiesOnly_trans modifiesOnly_mono)

lemma movingAveragePredictS_frame:
  assumes "data < length h"
  shows "\<exists>h' r. movingAveragePredictS tz h data windowSize forecastDays = Some (h', r)
    \<and> modifiesOnly (fresh h) h h'"
proof (cases "length (refs h data) < windowSize")
  case True
  then show ?thesis
    by (simp add: movingAveragePredictS_def modifiesOnly_refl)
next
  case False
  let ?h3 = "h @ [Nums (map (closeOf h) (refs h data)),
                  Dates (map (dateOf (h @ [Nums (map (closeOf h) (refs h data))]))
                          (refs (h @ [Nums (map (closeOf h) (refs h data))]) data)),
                  Refs []]"
  let ?results = "Suc (Suc (length h))"
  have h3: "modifiesOnly (fresh h) h ?h3"
    by (rule modifiesOnly_append)
  from assms have "data < length ?h3" "data \<noteq> ?results"
    by simp_all
  from maHistoricalS_frame[OF this, of "length h" "Suc (length h)" windowSize windowSize]
  obtain h4 where h4: "maHistoricalS ?h3 data (length h) (Suc (length h)) ?results
      windowSize windowSize = Some h4" "modifiesOnly {?results} ?h3 h4"
    by blast
  have m4: "modifiesOnly (fresh h) h h4"
    using h3 h4(2) by (rule then_modifies) (simp add: fresh_def)
  let ?h5 = "h4 @ [Nums (sliceLast (nums h4 (length h)) windowSize)]"
  have m5: "modifiesOnly (fresh h) h ?h5"
    using m4 by (rule then_append)
  have len4: "length h \<le> length h4"
    using m4 by (rule modifiesOnly_length)
  have m6: "modifiesOnly (fresh h) h
      (maFutureS tz ?h5 (Suc (length h)) ?results (length h4) forecastDays 0)"
    using m5 maFutureS_frame by (rule then_modifies) (use len4 in \<open>simp add: fresh_def\<close>)
  show ?thesis
    using False h4(1) m5 m6
    by (simp add: movingAveragePredictS_def alloc_def)
qed

subsection \<open>Exponential smoothing\<close>

lemma esHistoricalS_round:
  "i < length (refs h data) \<Longrightarrow>
   \<exists>h1 forecast'. esHistoricalS h data closePrices dts results alpha i forecast =
      esHistoricalS h1 data closePrices dts results alpha (i + 1) forecast'
    \<and> modifiesOnly {results} h h1"
  by (subst esHistoricalS.simps, simp add: alloc_def, intro exI conjI, rule refl, intro writes,
      simp_all)

lemma esHistoricalS_frame:
  "data < length h \<Longrightarrow> data \<noteq> results \<Longrightarrow>
   \<exists>h' forecast'. esHistoricalS h data closePrices dts results alpha i forecast
       = Some (h', forecast')
     \<and> modifiesOnly {results} h h'"
proof (induction "length (refs h data) - i" arbitrary: h i forecast)
  case 0
  then have "\<not> i < length (refs h data)"
    by simp
  then have "esHistoricalS h data closePrices dts results alpha i forecast = Some (h, forecast)"
    by (subst esHistoricalS.simps) simp
  then show ?case
    by (simp add: modifiesOnly_refl)
next
  case (Suc n)
  then have less: "i < length (refs h data)"
    by simp
  from esHistoricalS_round[OF less] obtain h1 forecast1 where
    h1: "esHistoricalS h data closePrices dts results alpha i forecast =
      esHistoricalS h1 data closePrices dts results alpha (i + 1) forecast1"
      "modifiesOnly {results} h h1"
    by blast
  have same: "refs h1 data = refs h data"
    using modifiesOnly_refs[OF h1(2) Suc.prems(1)] Suc.prems(2) by simp
  have "data < length h1"
    using modifiesOnly_length[OF h1(2)] Suc.prems(1) by simp
  moreover have "n = length (refs h1 data) - (i + 1)"
    using Suc.hyps(2) same by simp
  ultimately obtain h' forecast' where
    "esHistoricalS h1 data closePrices dts results alpha (i + 1) forecast1 = Some (h', forecast')"
    "modifiesOnly {results} h1 h'"
    using Suc.hyps(1)[of h1 "i + 1" forecast1] Suc.prems(2) by blast
  with h1 show ?case
    by (auto intro: modifiesOnly_trans)
qed

lemma esFutureS_round:
  "i < forecastDays \<Longrightarrow>
   \<exists>h1 lastActual' forecast'.
      esFutureS tz h dts results alpha forecastDays i lastActual forecast =
      esFutureS tz h1 dts results alpha forecastDays (i + 1) lastActual' forecast'
    \<and> modifiesOnly {results} h h1"
  by (subst esFutureS.simps, simp add: alloc_def, intro exI conjI, rule refl, intro writes,
      simp_all)

lemma esFutureS_frame:
  "modifiesOnly {results} h (esFutureS tz h dts results alpha forecastDays i lastActual forecast)"
proof (induction "forecastDays - i" arbitrary: h i lastActual forecast)
  case 0
  then show ?case
    by (subst esFutureS.simps) (simp add: modifiesOnly_refl)
next
  case (Suc n)
  then have less: "i < forecastDays" and n: "n = forecastDays - (i + 1)"
    by simp_all
  from esFutureS_round[OF less] obtain h1 lastActual1 forecast1 where
    h1: "esFutureS tz h dts results alpha forecastDays i lastActual forecast =
      esFutureS tz h1 dts results alpha forecastDays (i + 1) lastActual1 forecast1"
      "modifiesOnly {results} h h1"
    by blast
  from h1(2) Suc.hyps(1)[OF n, of h1] show ?case
    unfolding h1(1) by (rule modifiesOnly_trans)
qed

lemma exponentialSmoothingPredictS_frame:
  assumes "data < length h"
  shows "\<exists>h' r. exponentialSmoothingPredictS tz h data alpha forecastDays = Some (h', r)
    \<and> modifiesOnly (fresh h) h h'"
proof (cases "length (refs h data) < 2")
  case True
  then show ?thesis
    by (simp add: exponentialSmoothingPredictS_def modifiesOnly_refl)
next
  case False
  let ?h3 = "h @ [Nums (map (closeOf h) (refs h data)),
                  Dates (map (dateOf (h @ [Nums (map (closeOf h) (refs h data))]))
                          (refs (h @ [Nums (map (closeOf h) (refs h data))]) data)),
                  Refs []]"
  let ?results = "Suc (Suc (length h))"
  have h3: "modifiesOnly (fresh h) h ?h3"
    by (rule modifiesOnly_append)
  from assms have "data < length ?h3" "data \<noteq> ?results"
    by simp_all
  from esHistoricalS_frame[OF this, of "length h" "Suc (length h)" alpha "Suc 0"
      "nums ?h3 (length h) ! 0"]
  obtain h4 forecast where h4: "esHistoricalS ?h3 data (length h) (Suc (length h)) ?results
      alpha (Suc 0) (nums ?h3 (length h) ! 0) = Some (h4, forecast)"
      "modifiesOnly {?results} ?h3 h4"
    by blast
  have m4: "modifiesOnly (fresh h) h h4"
    using h3 h4(2) by (rule then_modifies) (simp add: fresh_def)
  have m5: "modifiesOnly (fresh h) h
      (esFutureS tz h4 (Suc (length h)) ?results alpha forecastDays 0
         (nums h4 (length h) ! (length (nums h4 (length h)) - 1)) forecast)"
    using m4 esFutureS_frame by (rule then_modifies) (simp add: fresh_def)
  show ?thesis
    using False h4(1) m5
    by (simp add: exponentialSmoothingPredictS_def alloc_def)
qed

subsection \<open>Simplified ARIMA\<close>

lemma differencingS_frame:
  "a < length h \<Longrightarrow> differencingS h a n = (h', a') \<Longrightarrow>
   modifiesOnly W h h' \<and> a' < length h'"
proof (induction n arbitrary: h a)
  case 0
  then show ?case
    by (simp add: modifiesOnly_refl)
next
  case (Suc n)
  let ?h1 = "h @ [Nums (drop 1 (nums h a))]"
  let ?h2 = "?h1 @ [Nums (map (\<lambda>idx. nums ?h1 (length h) ! idx - nums ?h1 a ! idx)
                      [0..<length (nums ?h1 (length h))])]"
  from Suc.prems(2) have run: "differencingS ?h2 (Suc (length h)) n = (h', a')"
    by (simp add: alloc_def)
  have "Suc (length h) < length ?h2"
    by simp
  from Suc.IH[OF this run] have "modifiesOnly W ?h2 h'" "a' < length h'"
    by simp_all
  moreover have "modifiesOnly W h ?h2"
    by (intro writes)
  ultimately show ?case
    by (blast intro: modifiesOnly_trans)
qed

lemma arimaHistoricalS_round:
  "i < length (nums h diffPrices) \<Longrightarrow>
   \<exists>h1. arimaHistoricalS h p q diffPrices arCoefficients maCoefficients errors predictions i =
      arimaHistoricalS h1 p q diffPrices arCoefficients maCoefficients errors predictions (i + 1)
    \<and> modifiesOnly {errors, predictions} h h1"
  by (subst arimaHistoricalS.simps, simp, intro exI conjI, rule refl, intro writes, simp_all)

lemma arimaHistoricalS_frame:
  "diffPrices < length h \<Longrightarrow> diffPrices \<noteq> errors \<Longrightarrow> diffPrices \<noteq> predictions \<Longrightarrow>
   \<exists>h'. arimaHistoricalS h p q diffPrices arCoefficients maCoefficients errors predictions i
       = Some h'
     \<and> modifiesOnly {errors, predictions} h h'"
proof (induction "length (nums h diffPrices) - i" arbitrary: h i)
  case 0
  then have "\<not> i < length (nums h diffPrices)"
    by simp
  then have "arimaHistoricalS h p q diffPrices arCoefficients maCoefficients errors predictions i
      = Some h"
    by (subst arimaHistoricalS.simps) simp
  then show ?case
    by (simp add: modifiesOnly_refl)
next
  case (Suc n)
  then have less: "i < length (nums h diffPrices)"
    by simp
  from arimaHistoricalS_round[OF less] obtain h1 where
    h1: "arimaHistoricalS h p q diffPrices arCoefficients maCoefficients errors predictions i =
      arimaHistoricalS h1 p q diffPrices arCoefficients maCoefficients errors predictions (i + 1)"
      "modifiesOnly {errors, predictions} h h1"
    by blast
  have same: "nums h1 diffPrices = nums h diffPrices"
    using modifiesOnly_nums[OF h1(2) Suc.prems(1)] Suc.prems(2,3) by simp
  have "diffPrices < length h1"
    using modifiesOnly_length[OF h1(2)] Suc.prems(1) by simp
  moreover have "n = length (nums h1 diffPrices) - (i + 1)"
    using Suc.hyps(2) same by simp
  ultimately obtain h' where
    "arimaHistoricalS h1 p q diffPrices arCoefficients maCoefficients errors predictions (i + 1)
      = Some h'"
    "modifiesOnly {errors, predictions} h1 h'"
    using Suc.hyps(1)[of h1 "i + 1"] Suc.prems(2,3) by blast
  with h1 show ?case
    by (auto intro: modifiesOnly_trans)
qed

lemma arimaUndiffS_round:
  "i < length (nums h predictions) \<Longrightarrow>
   \<exists>h1. arimaUndiffS h p d q closePrices dts predictions undiffPredictions results i =
      arimaUndiffS h1 p d q closePrices dts predictions undiffPredictions results (i + 1)
    \<and> modifiesOnly {undiffPredictions, results} h h1"
  by (subst arimaUndiffS.simps, simp add: alloc_def, intro exI conjI, rule refl, intro writes,
      simp_all)

lemma arimaUndiffS_frame:
  "predictions < length h \<Longrightarrow> predictions \<noteq> undiffPredictions \<Longrightarrow> predictions \<noteq> results \<Longrightarrow>
   \<exists>h'. arimaUndiffS h p d q closePrices dts predictions undiffPredictions results i = Some h'
     \<and> modifiesOnly {undiffPredictions, results} h h'"
proof (induction "length (nums h predictions) - i" arbitrary: h i)
  case 0
  then have "\<not> i < length (nums h predictions)"
    by simp
  then have "arimaUndiffS h p d q closePrices dts predictions undiffPredictions results i
      = Some h"
    by (subst arimaUndiffS.simps) simp
  then show ?case
    by (simp add: modifiesOnly_refl)
next
  case (Suc n)
  then have less: "i < length (nums h predictions)"
    by simp
  from arimaUndiffS_round[OF less] obtain h1 where
    h1: "arimaUndiffS h p d q closePrices dts predictions undiffPredictions results i =
      arimaUndiffS h1 p d q closePrices dts predictions undiffPredictions results (i + 1)"
      "modifiesOnly {undiffPredictions, results} h h1"
    by blast
  have same: "nums h1 predictions = nums h predictions"
    using modifiesOnly_nums[OF h1(2) Suc.prems(1)] Suc.prems(2,3) by simp
  have "predictions < length h1"
    using modifiesOnly_length[OF h1(2)] Suc.prems(1) by simp
  moreover have "n = length (nums h1 predictions) - (i + 1)"
    using Suc.hyps(2) same by simp
  ultimately obtain h' where
    "arimaUndiffS h1 p d q closePrices dts predictions undiffPredictions results (i + 1)
      = Some h'"
    "modifiesOnly {undiffPredictions, results} h1 h'"
    using Suc.hyps(1)[of h1 "i + 1"] Suc.prems(2,3) by blast
  with h1 show ?case
    by (auto intro: modifiesOnly_trans)
qed

lemma arimaFutureS_round:
  "i < forecastDays \<Longrightarrow>
   \<exists>h1. arimaFutureS tz h p d q dts arCoefficients maCoefficients lastActuals lastPredictions
        lastErrors undiffPredictions results forecastDays i =
      arimaFutureS tz h1 p d q dts arCoefficients maCoefficients lastActuals lastPredictions
        lastErrors undiffPredictions results forecastDays (i + 1)
    \<and> modifiesOnly {undiffPredictions, results, lastPredictions, lastErrors} h h1"
  by (subst arimaFutureS.simps, simp add: alloc_def, intro exI conjI, rule refl, intro writes,
      simp_all)

lemma arimaFutureS_frame:
  "modifiesOnly {undiffPredictions, results, lastPredictions, lastErrors} h
     (arimaFutureS tz h p d q dts arCoefficients maCoefficients lastActuals lastPredictions
        lastErrors undiffPredictions results forecastDays i)"
proof (induction "forecastDays - i" arbitrary: h i)
  case 0
  then show ?case
    by (subst arimaFutureS.simps) (simp add: modifiesOnly_refl)
next
  case (Suc n)
  then have less: "i < forecastDays" and n: "n = forecastDays - (i + 1)"
    by simp_all
  from arimaFutureS_round[OF less] obtain h1 where
    h1: "arimaFutureS tz h p d q dts arCoefficients maCoefficients lastActuals lastPredictions
        lastErrors undiffPredictions results forecastDays i =
      arimaFutureS tz h1 p d q dts arCoefficients maCoefficients lastActuals lastPredictions
        lastErrors undiffPredictions results forecastDays (i + 1)"
      "modifiesOnly {undiffPredictions, results, lastPredictions, lastErrors} h h1"
    by blast
  from h1(2) Suc.hyps(1)[OF n, of h1] show ?case
    unfolding h1(1) by (rule modifiesOnly_trans)
qed

lemma arimaPredictS_frame:
  assumes "data < length h"
  shows "\<exists>h' r. arimaPredictS tz h data p d q forecastDays = Some (h', r)
    \<and> modifiesOnly (fresh h) h h'"
proof (cases "length (refs h data) < max p q + d + 1")
  case True
  then show ?thesis
    by (simp add: arimaPredictS_def modifiesOnly_refl)
next
  case False
  let ?h3 = "h @ [Nums (map (closeOf h) (refs h data)),
                  Dates (map (dateOf (h @ [Nums (map (closeOf h) (refs h data))]))
                          (refs (h @ [Nums (map (closeOf h) (refs h data))]) data)),
                  Refs []]"
  let ?closePrices = "length h" and ?dts = "Suc (length h)" and ?results = "Suc (Suc (length h))"
  have m3: "modifiesOnly (fresh h) h ?h3"
    by (rule modifiesOnly_append)
  obtain h4 diffPrices where diff: "differencingS ?h3 ?closePrices d = (h4, diffPrices)"
    by (cases "differencingS ?h3 ?closePrices d")
  have "?closePrices < length ?h3"
    by simp
  from differencingS_frame[OF this diff, of "fresh h"]
  have m34: "modifiesOnly (fresh h) ?h3 h4" and dp: "diffPrices < length h4"
    by simp_all
  have m4: "modifiesOnly (fresh h) h h4"
    using m3 m34 by (rule modifiesOnly_trans)
  have len4: "length h + 3 \<le> length h4"
    using modifiesOnly_length[OF m34] by simp
  let ?h8 = "h4 @ [Nums (replicate p (1 / real p)), Nums (replicate q (1 / real q)),
                   Nums [], Nums []]"
  let ?ar = "length h4" and ?ma = "Suc (length h4)" and ?errors = "Suc (Suc (length h4))"
    and ?predictions = "Suc (Suc (Suc (length h4)))"
  have m8: "modifiesOnly (fresh h) h ?h8"
    using m4 by (rule then_append)
  from dp have "diffPrices < length ?h8" "diffPrices \<noteq> ?errors" "diffPrices \<noteq> ?predictions"
    by simp_all
  from arimaHistoricalS_frame[OF this, of p q ?ar ?ma "max p q"]
  obtain h9 where h9: "arimaHistoricalS ?h8 p q diffPrices ?ar ?ma ?errors ?predictions (max p q)
      = Some h9" "modifiesOnly {?errors, ?predictions} ?h8 h9"
    by blast
  have m9: "modifiesOnly (fresh h) h h9"
    using m8 h9(2) by (rule then_modifies) (use len4 in \<open>simp add: fresh_def\<close>)
  have len9: "length h4 + 4 \<le> length h9"
    using modifiesOnly_length[OF h9(2)] by simp
  let ?h10 = "h9 @ [Nums []]"
  let ?undiff = "length h9"
  have m10: "modifiesOnly (fresh h) h ?h10"
    using m9 by (rule then_append)
  from len4 len9 have "?predictions < length ?h10" "?predictions \<noteq> ?undiff"
      "?predictions \<noteq> ?results"
    by simp_all
  from arimaUndiffS_frame[OF this, of p d q ?closePrices ?dts 0]
  obtain h11 where h11: "arimaUndiffS ?h10 p d q ?closePrices ?dts ?predictions ?undiff ?results 0
      = Some h11" "modifiesOnly {?undiff, ?results} ?h10 h11"
    by blast
  have m11: "modifiesOnly (fresh h) h h11"
    using m10 h11(2) by (rule then_modifies) (use len4 len9 in \<open>simp add: fresh_def\<close>)
  have len11: "length h9 + 1 \<le> length h11"
    using modifiesOnly_length[OF h11(2)] by simp
  have fin: "modifiesOnly (fresh h) h
      (arimaFutureS tz (h11 @ cs) p d q dts ar ma lastActuals lastPredictions lastErrors
         ?undiff ?results forecastDays 0)"
    if "length h \<le> lastPredictions" "length h \<le> lastErrors"
    for cs dts ar ma lastActuals lastPredictions lastErrors
    using then_append[OF m11] arimaFutureS_frame
    by (rule then_modifies) (use that len4 len9 in \<open>simp add: fresh_def\<close>)
  have "length h \<le> length h11" "length h \<le> Suc (length h11)"
    using len4 len9 len11 by simp_all
  then show ?thesis
    using False diff h9(1) h11(1) fin
    by (simp add: arimaPredictS_def alloc_def)
qed

subsection \<open>Metrics and selector\<close>

lemma calculateMAES_frame: "calculateMAES h predictions = (h', v) \<Longrightarrow> modifiesOnly W h h'"
  by (auto simp: calculateMAES_def alloc_def modifiesOnly_append)

lemma calculateMPES_frame: "calculateMPES h predictions = (h', v) \<Longrightarrow> modifiesOnly W h h'"
  by (auto simp: calculateMPES_def alloc_def modifiesOnly_append)

lemma metricsEntryS_frame: "metricsEntryS h predictions m = (h', a) \<Longrightarrow> modifiesOnly W h h'"
  by (auto simp: metricsEntryS_def alloc_def split: prod.splits
      intro: modifiesOnly_trans calculateMAES_frame calculateMPES_frame then_append)

lemma determineBestModelS_frame:
  assumes "determineBestModelS h predictions = (h', a)"
  shows "modifiesOnly W h h'"
proof -
  obtain h1 m1 where e1: "metricsEntryS h predictions MOVING_AVERAGE = (h1, m1)"
    by (cases "metricsEntryS h predictions MOVING_AVERAGE")
  obtain h2 m2 where e2: "metricsEntryS h1 predictions EXPONENTIAL_SMOOTHING = (h2, m2)"
    by (cases "metricsEntryS h1 predictions EXPONENTIAL_SMOOTHING")
  obtain h3 m3 where e3: "metricsEntryS h2 predictions ARIMA = (h3, m3)"
    by (cases "metricsEntryS h2 predictions ARIMA")
  from assms obtain cs where "h' = h3 @ cs"
    by (auto simp: determineBestModelS_def e1 e2 e3 alloc_def split: prod.splits)
  moreover have "modifiesOnly W h h3"
    using metricsEntryS_frame[OF e1] metricsEntryS_frame[OF e2] metricsEntryS_frame[OF e3]
    by (blast intro: modifiesOnly_trans)
  ultimately show ?thesis
    by (simp add: then_append)
qed

text \<open>
  A store holding a series of three points (cells 0 to 2) and the input array (cell 3),
  and the store after \<^verbatim>\<open>movingAveragePredict(data, 2, 1)\<close>: the cells the call allocates are
  \<^verbatim>\<open>closePrices\<close>, \<^verbatim>\<open>dates\<close>, \<^verbatim>\<open>results\<close>, the window of the one backtest round and its
  result object, \<^verbatim>\<open>lastPredictions\<close> (after \<^verbatim>\<open>shift\<close> and \<^verbatim>\<open>push\<close>) and the forecast object.
\<close>

definition smallStore :: store where
  "smallStore =
     [Point (point 19723 100), Point (point 19724 102), Point (point 19725 101), Refs [0, 1, 2]]"

lemmas store_access = alloc_def refs_def nums_def dates_def closeOf_def dateOf_def
  pushRef_def pushNum_def shiftNum_def nth_append

lemma maHistoricalS_example:
  "maHistoricalS
     (smallStore @ [Nums [100, 102, 101], Dates [19723, 19724, 19725], Refs []]) 3 4 5 6 2 2 =
   Some (smallStore @
           [Nums [100, 102, 101], Dates [19723, 19724, 19725], Refs [8], Nums [100, 102],
            Result \<lparr>date = 19725, actual = Some 101, predicted = 101,
                    modelName = MOVING_AVERAGE\<rparr>])"
  by (subst maHistoricalS.simps,
      simp add: smallStore_def store_access slice_def average_def toFixed2_def,
      subst maHistoricalS.simps, simp add: store_access)

lemma maFutureS_example:
  "maFutureS 0
     (smallStore @
        [Nums [100, 102, 101], Dates [19723, 19724, 19725], Refs [8], Nums [100, 102],
         Result \<lparr>date = 19725, actual = Some 101, predicted = 101,
                 modelName = MOVING_AVERAGE\<rparr>,
         Nums [102, 101]]) 5 6 9 1 0 =
   smallStore @
     [Nums [100, 102, 101], Dates [19723, 19724, 19725], Refs [8, 10], Nums [100, 102],
      Result \<lparr>date = 19725, actual = Some 101, predicted = 101, modelName = MOVING_AVERAGE\<rparr>,
      Nums [101, 203 / 2],
      Result \<lparr>date = 19726, actual = None, predicted = 203 / 2, modelName = MOVING_AVERAGE\<rparr>]"
  by (subst maFutureS.simps,
      simp add: smallStore_def store_access average_def toFixed2_def
        getNextBusinessDay_def businessLoop.simps getDay_def newDate_def msPerDay_def
        toISODate_def,
      subst maFutureS.simps, simp)

lemma movingAveragePredictS_example:
  "movingAveragePredictS 0 smallStore 3 2 1 =
     Some (smallStore @
             [Nums [100, 102, 101],
              Dates [19723, 19724, 19725],
              Refs [8, 10],
              Nums [100, 102],
              Result \<lparr>date = 19725, actual = Some 101, predicted = 101,
                      modelName = MOVING_AVERAGE\<rparr>,
              Nums [101, 203 / 2],
              Result \<lparr>date = 19726, actual = None, predicted = 203 / 2,
                      modelName = MOVING_AVERAGE\<rparr>],
           Inr 6)"
proof -
  let ?n = "Nums [100, 102, 101]" and ?d = "Dates [19723, 19724, 19725]"
  let ?w = "Nums [100, 102]"
  let ?e = "Result \<lparr>date = 19725, actual = Some 101, predicted = 101,
                    modelName = MOVING_AVERAGE\<rparr>"
  let ?h4 = "smallStore @ [?n, ?d, Refs [8], ?w, ?e]"
  have guard: "(length (refs smallStore 3) < 2) = False"
    by (simp add: smallStore_def refs_def)
  have a1: "alloc smallStore (Nums (map (closeOf smallStore) (refs smallStore 3)))
      = (smallStore @ [?n], 4)"
    by (simp add: smallStore_def store_access point_def)
  have a2: "alloc (smallStore @ [?n])
      (Dates (map (dateOf (smallStore @ [?n])) (refs (smallStore @ [?n]) 3)))
      = (smallStore @ [?n, ?d], 5)"
    by (simp add: smallStore_def store_access point_def)
  have a3: "alloc (smallStore @ [?n, ?d]) (Refs []) = (smallStore @ [?n, ?d, Refs []], 6)"
    by (simp add: smallStore_def store_access)
  have a4: "alloc ?h4 (Nums (sliceLast (nums ?h4 4) 2)) = (?h4 @ [Nums [102, 101]], 9)"
    by (simp add: smallStore_def store_access sliceLast_def)
  have more: "(dates (smallStore @ [?n, ?d, Refs [8], ?w, ?e, Nums [102, 101]]) 5 = []
      \<and> (0 :: nat) < 1) = False"
    by (simp add: smallStore_def store_access)
  have a5: "?h4 @ [Nums [102, 101]] = smallStore @ [?n, ?d, Refs [8], ?w, ?e, Nums [102, 101]]"
    by simp
  show ?thesis
    by (simp only: movingAveragePredictS_def guard if_False a1 a2 a3 prod.case
        maHistoricalS_example option.case a4 more a5 maFutureS_example)
qed

lemma movingAveragePredict_example:
  "movingAveragePredict 0 [point 19723 100, point 19724 102, point 19725 101] 2 1 =
     Inr [\<lparr>date = 19725, actual = Some 101, predicted = 101, modelName = MOVING_AVERAGE\<rparr>,
          \<lparr>date = 19726, actual = None, predicted = 203 / 2, modelName = MOVING_AVERAGE\<rparr>]"
  by (simp add: movingAveragePredict_def maHistorical.simps maFuture.simps point_def
      slice_def sliceLast_def average_def toFixed2_def
      getNextBusinessDay_def businessLoop.simps getDay_def newDate_def msPerDay_def
      toISODate_def)

text \<open>
  C10. No operation mutates its input. On the store, for an input array that is a cell of
  the store, each forecaster returns, and the store it leaves holds every cell of the
  store it was called on unchanged (the input array and each of its elements among them);
  so do \<^verbatim>\<open>calculateMAE\<close>, \<^verbatim>\<open>calculateMPE\<close> and \<^verbatim>\<open>determineBestModel\<close>. The forecast loops write
  to the cells of \<^verbatim>\<open>results\<close>, \<^verbatim>\<open>lastPredictions\<close>, \<^verbatim>\<open>lastErrors\<close> and \<^verbatim>\<open>undiffPredictions\<close> only,
  arrays which the call has allocated itself.
\<close>

theorem operations_leave_input_unchanged:
  "(data < length h \<longrightarrow>
      (\<exists>h' r. movingAveragePredictS tz h data windowSize forecastDays = Some (h', r)
         \<and> length h \<le> length h' \<and> (\<forall>a < length h. h' ! a = h ! a))
    \<and> (\<exists>h' r. exponentialSmoothingPredictS tz h data alpha forecastDays = Some (h', r)
         \<and> length h \<le> length h' \<and> (\<forall>a < length h. h' ! a = h ! a))
    \<and> (\<exists>h' r. arimaPredictS tz h data p d q forecastDays = Some (h', r)
         \<and> length h \<le> length h' \<and> (\<forall>a < length h. h' ! a = h ! a)))
   \<and> (length h \<le> length (fst (calculateMAES h predictions))
        \<and> (\<forall>a < length h. fst (calculateMAES h predictions) ! a = h ! a))
   \<and> (length h \<le> length (fst (calculateMPES h predictions))
        \<and> (\<forall>a < length h. fst (calculateMPES h predictions) ! a = h ! a))
   \<and> (length h \<le> length (fst (determineBestModelS h predictionsRecord))
        \<and> (\<forall>a < length h. fst (determineBestModelS h predictionsRecord) ! a = h ! a))
   \<and> modifiesOnly {results, lastPredictions} h
        (maFutureS tz h dts results lastPredictions forecastDays i)
   \<and> modifiesOnly {undiffPredictions, results, lastPredictions, lastErrors} h
        (arimaFutureS tz h p d q dts arCoefficients maCoefficients lastActuals lastPredictions
           lastErrors undiffPredictions results forecastDays i)"
proof (intro conjI impI)
  assume "data < length h"
  then show "\<exists>h' r. movingAveragePredictS tz h data windowSize forecastDays = Some (h', r)
         \<and> length h \<le> length h' \<and> (\<forall>a < length h. h' ! a = h ! a)"
    using movingAveragePredictS_frame[of data h tz windowSize forecastDays]
    by (simp add: modifiesOnly_fresh)
next
  assume "data < length h"
  then show "\<exists>h' r. exponentialSmoothingPredictS tz h data alpha forecastDays = Some (h', r)
         \<and> length h \<le> length h' \<and> (\<forall>a < length h. h' ! a = h ! a)"
    using exponentialSmoothingPredictS_frame[of data h tz alpha forecastDays]
    by (simp add: modifiesOnly_fresh)
next
  assume "data < length h"
  then show "\<exists>h' r. arimaPredictS tz h data p d q forecastDays = Some (h', r)
         \<and> length h \<le> length h' \<and> (\<forall>a < length h. h' ! a = h ! a)"
    using arimaPredictS_frame[of data h tz p d q forecastDays]
    by (simp add: modifiesOnly_fresh)
next
  have "modifiesOnly (fresh h) h (fst (calculateMAES h predictions))"
    by (rule calculateMAES_frame) (rule prod.collapse[symmetric])
  then show "length h \<le> length (fst (calculateMAES h predictions))"
    "\<forall>a < length h. fst (calculateMAES h predictions) ! a = h ! a"
    by (simp_all add: modifiesOnly_fresh)
next
  have "modifiesOnly (fresh h) h (fst (calculateMPES h predictions))"
    by (rule calculateMPES_frame) (rule prod.collapse[symmetric])
  then show "length h \<le> length (fst (calculateMPES h predictions))"
    "\<forall>a < length h. fst (calculateMPES h predictions) ! a = h ! a"
    by (simp_all add: modifiesOnly_fresh)
next
  have "modifiesOnly (fresh h) h (fst (determineBestModelS h predictionsRecord))"
    by (rule determineBestModelS_frame) (rule prod.collapse[symmetric])
  then show "length h \<le> length (fst (determineBestModelS h predictionsRecord))"
    "\<forall>a < length h. fst (determineBestModelS h predictionsRecord) ! a = h ! a"
    by (simp_all add: modifiesOnly_fresh)
next
  show "modifiesOnly {results, lastPredictions} h
        (maFutureS tz h dts results lastPredictions forecastDays i)"
    by (rule maFutureS_frame)
next
  show "modifiesOnly {undiffPredictions, results, lastPredictions, lastErrors} h
        (arimaFutureS tz h p d q dts arCoefficients maCoefficients lastActuals lastPredictions
           lastErrors undiffPredictions results forecastDays i)"
    by (rule arimaFutureS_frame)
qed

theorem operations_leave_input_unchanged_witness:
  "3 < length smallStore
   \<and> (\<exists>h' r. movingAveragePredictS 0 smallStore 3 2 1 = Some (h', r)
         \<and> h' ! 3 = Refs [0, 1, 2] \<and> h' ! 0 = Point (point 19723 100))
   \<and> (\<exists>h' r. exponentialSmoothingPredictS 0 smallStore 3 (3 / 10) 1 = Some (h', r)
         \<and> h' ! 3 = Refs [0, 1, 2] \<and> h' ! 0 = Point (point 19723 100))
   \<and> (\<exists>h' r. arimaPredictS 0 smallStore 3 1 1 1 1 = Some (h', r)
         \<and> h' ! 3 = Refs [0, 1, 2] \<and> h' ! 0 = Point (point 19723 100))"
proof -
  have s: "3 < length smallStore" "0 < length smallStore"
      "smallStore ! 3 = Refs [0, 1, 2]" "smallStore ! 0 = Point (point 19723 100)"
    by (simp_all add: smallStore_def)
  note frame = operations_leave_input_unchanged[of 3 smallStore 0, THEN conjunct1, rule_format,
      OF s(1)]
  from frame[of 2 1, THEN conjunct1] s
  have 1: "\<exists>h' r. movingAveragePredictS 0 smallStore 3 2 1 = Some (h', r)
         \<and> h' ! 3 = Refs [0, 1, 2] \<and> h' ! 0 = Point (point 19723 100)"
    by fastforce
  from frame[of _ 1 "3 / 10", THEN conjunct2, THEN conjunct1] s
  have 2: "\<exists>h' r. exponentialSmoothingPredictS 0 smallStore 3 (3 / 10) 1 = Some (h', r)
         \<and> h' ! 3 = Refs [0, 1, 2] \<and> h' ! 0 = Point (point 19723 100)"
    by fastforce
  from frame[of _ 1 _ 1 1 1, THEN conjunct2, THEN conjunct2] s
  have 3: "\<exists>h' r. arimaPredictS 0 smallStore 3 1 1 1 1 = Some (h', r)
         \<and> h' ! 3 = Refs [0, 1, 2] \<and> h' ! 0 = Point (point 19723 100)"
    by fastforce
  from s(1) 1 2 3 show ?thesis
    by blast
qed

end
